theory Spec2Isabelle
  imports Main
begin

section \<open>Values, exceptions and the article record\<close>

text \<open>
  The scraper of \<^verbatim>\<open>src/web_scraper.py\<close> is dynamically typed: a field of an
  \<^verbatim>\<open>Article\<close> holds whatever \<^verbatim>\<open>metadata.get\<close> returned. The values that
  \<^verbatim>\<open>json.loads\<close> can produce are modelled by one datatype. A dictionary is an
  association list with \<open>map_of\<close> as lookup. A number with a fraction or an exponent
  is kept as its literal text, since the program never computes with it. Strings are
  \<open>string\<close>, so the characters are those with a code below 256.
\<close>

datatype pyval =
    PNone
  | PBool bool
  | PInt int
  | PFloat string
  | PStr string
  | PList "pyval list"
  | PDict "(string \<times> pyval) list"

text \<open>
  The exceptions that can leave a call: a failed \<^verbatim>\<open>requests.get\<close>, a markup parser
  that rejects its input, the \<^verbatim>\<open>AttributeError\<close> of a method call on a value that
  has no such method, and those of \<^verbatim>\<open>json.loads\<close>. The decoder raises
  \<^verbatim>\<open>json.JSONDecodeError\<close> on a text that is not JSON, and it also raises
  \<^verbatim>\<open>ValueError\<close> on an integer of more than 4300 digits and
  \<^verbatim>\<open>RecursionError\<close> on deep nesting. \<open>ValueError\<close> here is a
  \<^verbatim>\<open>ValueError\<close> that is not the subclass \<^verbatim>\<open>JSONDecodeError\<close>.
\<close>

datatype exn =
    FetchError
  | ParseError
  | AttributeError
  | JSONDecodeError
  | ValueError
  | RecursionError

text \<open>
  The dataclass \<^verbatim>\<open>Article\<close>, lines 12 to 29, in the declared field order. The
  field \<^verbatim>\<open>keywords\<close> is \<open>keywords'\<close> here, where the plain name is reserved; it
  holds the list of strings that \<^verbatim>\<open>split\<close> returns.
\<close>

record article =
  type :: pyval
  postid :: pyval
  title :: pyval
  url :: pyval
  keywords' :: "string list"
  thumbnail :: pyval
  video_duration :: pyval
  word_count :: pyval
  lang :: pyval
  published_time :: pyval
  last_updated :: pyval
  description :: pyval
  author :: pyval
  classes :: pyval
  html :: pyval
  lite_url :: pyval

text \<open>\<^verbatim>\<open>dataclasses.asdict\<close>, used by \<^verbatim>\<open>save_to_json\<close>: the fields as a dictionary.\<close>

definition asdict :: "article \<Rightarrow> (string \<times> pyval) list" where
  "asdict a =
     [(''type'', type a), (''postid'', postid a), (''title'', title a), (''url'', url a),
      (''keywords'', PList (map PStr (keywords' a))), (''thumbnail'', thumbnail a),
      (''video_duration'', video_duration a), (''word_count'', word_count a),
      (''lang'', lang a), (''published_time'', published_time a),
      (''last_updated'', last_updated a), (''description'', description a),
      (''author'', author a), (''classes'', classes a), (''html'', html a),
      (''lite_url'', lite_url a)]"

section \<open>String operations of the Python library\<close>

text \<open>
  \<^verbatim>\<open>s.split(sep)\<close> for a one-character separator: the pieces between the
  separators, so one piece more than there are separators, and never the empty list.
\<close>

fun py_split :: "char \<Rightarrow> string \<Rightarrow> string list" where
  "py_split sep [] = [[]]"
| "py_split sep (c # cs) =
     (if c = sep then [] # py_split sep cs
      else (c # hd (py_split sep cs)) # tl (py_split sep cs))"

text \<open>\<^verbatim>\<open>sep.join(xs)\<close>.\<close>

fun py_join :: "string \<Rightarrow> string list \<Rightarrow> string" where
  "py_join sep [] = []"
| "py_join sep [x] = x"
| "py_join sep (x # y # ys) = x @ sep @ py_join sep (y # ys)"

text \<open>\<^verbatim>\<open>d.get(k, default)\<close> on a dictionary.\<close>

definition dict_get :: "(string \<times> pyval) list \<Rightarrow> string \<Rightarrow> pyval \<Rightarrow> pyval" where
  "dict_get d k dflt = (case map_of d k of Some v \<Rightarrow> v | None \<Rightarrow> dflt)"

section \<open>Building the record\<close>

text \<open>
  Lines 66 to 83 of \<^verbatim>\<open>scrape_article\<close>. The arguments of the constructor are
  evaluated in order; \<^verbatim>\<open>metadata.get\<close> raises \<^verbatim>\<open>AttributeError\<close> when
  \<^verbatim>\<open>metadata\<close> is not a dictionary, and \<^verbatim>\<open>.split(',')\<close> raises it when the
  value found under \<^verbatim>\<open>'keywords'\<close> is not a string. Nothing else can raise: the
  dataclass constructor checks no types.
\<close>

definition make_article :: "pyval \<Rightarrow> exn + article" where
  "make_article metadata =
     (case metadata of
        PDict d \<Rightarrow>
          (case dict_get d ''keywords'' (PStr '''') of
             PStr s \<Rightarrow>
               Inr \<lparr> type = dict_get d ''type'' PNone,
                     postid = dict_get d ''postid'' PNone,
                     title = dict_get d ''title'' PNone,
                     url = dict_get d ''url'' PNone,
                     keywords' = py_split (CHR '','') s,
                     thumbnail = dict_get d ''thumbnail'' PNone,
                     video_duration = dict_get d ''video_duration'' PNone,
                     word_count = dict_get d ''word_count'' PNone,
                     lang = dict_get d ''lang'' PNone,
                     published_time = dict_get d ''published_time'' PNone,
                     last_updated = dict_get d ''last_updated'' PNone,
                     description = dict_get d ''description'' PNone,
                     author = dict_get d ''author'' PNone,
                     classes = dict_get d ''classes'' (PList []),
                     html = dict_get d ''html'' (PStr ''''),
                     lite_url = dict_get d ''lite_url'' PNone \<rparr>
           | _ \<Rightarrow> Inl AttributeError)
      | _ \<Rightarrow> Inl AttributeError)"

section \<open>The outside world\<close>

text \<open>
  A parsed document, as far as the program looks at it: the elements in document order,
  each with its tag name, its \<^verbatim>\<open>id\<close> attribute when it has one, and its text
  (\<^verbatim>\<open>.text\<close>, \<^verbatim>\<open>get_text()\<close>).
\<close>

record element =
  tag_name :: string
  tag_id :: "string option"
  tag_text :: string

type_synonym soup = "element list"

text \<open>\<^verbatim>\<open>soup.find(name, id=ident)\<close>: the first such element, or \<^verbatim>\<open>None\<close>.\<close>

definition soup_find :: "soup \<Rightarrow> string \<Rightarrow> string \<Rightarrow> element option" where
  "soup_find sp nm ident = List.find (\<lambda>e. tag_name e = nm \<and> tag_id e = Some ident) sp"

text \<open>\<^verbatim>\<open>soup.find_all(name)\<close>: every such element, in document order.\<close>

definition soup_find_all :: "soup \<Rightarrow> string \<Rightarrow> element list" where
  "soup_find_all sp nm = filter (\<lambda>e. tag_name e = nm) sp"

text \<open>
  The library calls whose results the program cannot control are parameters of the
  model. \<open>requests_get w n u\<close> is the body (\<^verbatim>\<open>response.content\<close>) that
  \<^verbatim>\<open>requests.get(u)\<close> returns when \<open>n\<close> requests were made before it, or the
  exception it raises: the network may answer the same address differently at different
  times. \<open>BeautifulSoup w\<close> is the markup parser. \<open>json_loads w\<close> is
  \<^verbatim>\<open>json.loads\<close>: the value it returns or the exception it raises, whichever that
  is. Running out of memory is not modelled.
\<close>

record world =
  requests_get :: "nat \<Rightarrow> string \<Rightarrow> exn + string"
  BeautifulSoup :: "string \<Rightarrow> exn + soup"
  json_loads :: "string \<Rightarrow> exn + pyval"

text \<open>
  What a run leaves behind: the addresses requested, the lines printed, and the files
  written, each in order. A file is recorded with the value handed to
  \<^verbatim>\<open>json.dump\<close>; the layout of the text is the library's.
\<close>

datatype line =
    Retrieving
  | Processing string string
  | Failed string exn
  | Saved string string

record state =
  requests :: "string list"
  stdout :: "line list"
  written :: "(string \<times> pyval) list"

section \<open>The article scraper\<close>

text \<open>
  \<^verbatim>\<open>re.search(r'{.*}', s, re.DOTALL)\<close>, line 88. The search takes the leftmost
  position where the pattern matches, so the match starts at the first \<^verbatim>\<open>{\<close> that
  has a \<^verbatim>\<open>}\<close> after it; when the first \<^verbatim>\<open>{\<close> has none, no later one
  has. The star is greedy and, with \<^verbatim>\<open>DOTALL\<close>, the dot matches every character, so
  the match ends at the last \<^verbatim>\<open>}\<close>. The result is \<^verbatim>\<open>match.group()\<close>.
\<close>

definition re_search_braces :: "string \<Rightarrow> string option" where
  "re_search_braces s =
     (case dropWhile (\<lambda>c. c \<noteq> CHR ''{'') s of
        [] \<Rightarrow> None
      | c # rest \<Rightarrow>
          (case dropWhile (\<lambda>c. c \<noteq> CHR ''}'') (rev rest) of
             [] \<Rightarrow> None
           | tl_rev \<Rightarrow> Some (c # rev tl_rev)))"

text \<open>
  \<^verbatim>\<open>extract_metadata\<close>, lines 86 to 92. The \<^verbatim>\<open>except\<close> clause of line 91
  catches \<^verbatim>\<open>json.JSONDecodeError\<close> and nothing else: any other exception of
  \<^verbatim>\<open>json.loads\<close> leaves the function.
\<close>

definition extract_metadata :: "world \<Rightarrow> string \<Rightarrow> exn + pyval" where
  "extract_metadata w script_content =
     (case re_search_braces script_content of
        None \<Rightarrow> Inr (PDict [])
      | Some json_data \<Rightarrow>
          (case json_loads w json_data of
             Inr metadata \<Rightarrow> Inr metadata
           | Inl e \<Rightarrow> if e = JSONDecodeError then Inr (PDict []) else Inl e))"

text \<open>
  Lines 58 and 59 of \<^verbatim>\<open>scrape_article\<close>: the metadata of a parsed page, the empty
  dictionary when the page has no script element with the marker id.
\<close>

definition soup_metadata :: "world \<Rightarrow> soup \<Rightarrow> exn + pyval" where
  "soup_metadata w sp =
     (case soup_find sp ''script'' ''tawsiyat-metadata'' of
        Some script_tag \<Rightarrow> extract_metadata w (tag_text script_tag)
      | None \<Rightarrow> Inr (PDict []))"

text \<open>
  Lines 57 to 84 of \<^verbatim>\<open>scrape_article\<close>: what is done with the parsed page. An
  exception that leaves \<^verbatim>\<open>extract_metadata\<close> ends the call at line 59. The text
  of the paragraphs is computed, as in the source, and then not used.
\<close>

definition scrape_soup :: "world \<Rightarrow> soup \<Rightarrow> exn + article" where
  "scrape_soup w sp =
     (case soup_metadata w sp of
        Inl e \<Rightarrow> Inl e
      | Inr metadata \<Rightarrow>
          (let paragraphs = soup_find_all sp ''p'';
               content = py_join [CHR 0x0A] (map tag_text paragraphs)
           in make_article metadata))"

text \<open>\<^verbatim>\<open>scrape_article\<close>, lines 53 to 84: one request, then the parser, then the above.\<close>

definition scrape_article :: "world \<Rightarrow> state \<Rightarrow> string \<Rightarrow> (exn + article) \<times> state" where
  "scrape_article w st u =
     (let st' = st\<lparr>requests := requests st @ [u]\<rparr> in
      case requests_get w (length (requests st)) u of
        Inl e \<Rightarrow> (Inl e, st')
      | Inr response \<Rightarrow>
          (case BeautifulSoup w response of
             Inl e \<Rightarrow> (Inl e, st')
           | Inr sp \<Rightarrow> (scrape_soup w sp, st')))"

section \<open>The sitemap reader and the file writer\<close>

text \<open>
  \<^verbatim>\<open>get_monthly_sitemaps\<close> and \<^verbatim>\<open>get_article_urls\<close>, lines 36 to 46: one
  request, the parser, and the text of every \<^verbatim>\<open>loc\<close> element. The two bodies are
  the same; the first reads the address stored in the object.
\<close>

definition get_article_urls :: "world \<Rightarrow> state \<Rightarrow> string \<Rightarrow> (exn + string list) \<times> state" where
  "get_article_urls w st sitemap_url =
     (let st' = st\<lparr>requests := requests st @ [sitemap_url]\<rparr> in
      case requests_get w (length (requests st)) sitemap_url of
        Inl e \<Rightarrow> (Inl e, st')
      | Inr response \<Rightarrow>
          (case BeautifulSoup w response of
             Inl e \<Rightarrow> (Inl e, st')
           | Inr sp \<Rightarrow> (Inr (map tag_text (soup_find_all sp ''loc'')), st')))"

definition get_monthly_sitemaps :: "world \<Rightarrow> state \<Rightarrow> string \<Rightarrow> (exn + string list) \<times> state" where
  "get_monthly_sitemaps w st sitemap_index_url =
     (let st' = st\<lparr>requests := requests st @ [sitemap_index_url]\<rparr> in
      case requests_get w (length (requests st)) sitemap_index_url of
        Inl e \<Rightarrow> (Inl e, st')
      | Inr response \<Rightarrow>
          (case BeautifulSoup w response of
             Inl e \<Rightarrow> (Inl e, st')
           | Inr sp \<Rightarrow> (Inr (map tag_text (soup_find_all sp ''loc'')), st')))"

text \<open>\<^verbatim>\<open>FileUtility.save_to_json\<close>, lines 97 to 100.\<close>

definition save_to_json :: "article list \<Rightarrow> string \<Rightarrow> string \<Rightarrow> state \<Rightarrow> state" where
  "save_to_json data year month st =
     (let filename = ''articles_'' @ year @ ''_'' @ month @ ''.json''
      in st\<lparr>written := written st @ [(filename, PList (map (\<lambda>a. PDict (asdict a)) data))]\<rparr>)"

section \<open>The driver\<close>

text \<open>
  \<^verbatim>\<open>re.search(r'sitemap-(\d{4})-(\d{1,2})\.xml', sitemap_url)\<close>, line 114.
  \<open>match_sitemap\<close> is the pattern tried at the start of a string: the literal, four
  digits, a hyphen, then two digits if the rest still matches and otherwise one
  (\<^verbatim>\<open>{1,2}\<close> is greedy), then \<^verbatim>\<open>.xml\<close>. Among the characters of \<open>string\<close>
  the class \<^verbatim>\<open>\d\<close> holds the ten digits only. The result is \<^verbatim>\<open>match.groups()\<close>.
\<close>

definition is_digit :: "char \<Rightarrow> bool" where
  "is_digit c = (c \<in> set ''0123456789'')"

fun strip_prefix :: "string \<Rightarrow> string \<Rightarrow> string option" where
  "strip_prefix [] s = Some s"
| "strip_prefix (p # ps) [] = None"
| "strip_prefix (p # ps) (c # cs) = (if p = c then strip_prefix ps cs else None)"

definition match_sitemap :: "string \<Rightarrow> (string \<times> string) option" where
  "match_sitemap s =
     (case strip_prefix ''sitemap-'' s of
        None \<Rightarrow> None
      | Some r1 \<Rightarrow>
          (let year = take 4 r1 in
           if length year = 4 \<and> list_all is_digit year then
             (case strip_prefix ''-'' (drop 4 r1) of
                None \<Rightarrow> None
              | Some r2 \<Rightarrow>
                  if length (take 2 r2) = 2 \<and> list_all is_digit (take 2 r2)
                     \<and> strip_prefix ''.xml'' (drop 2 r2) \<noteq> None
                  then Some (year, take 2 r2)
                  else if length (take 1 r2) = 1 \<and> list_all is_digit (take 1 r2)
                     \<and> strip_prefix ''.xml'' (drop 1 r2) \<noteq> None
                  then Some (year, take 1 r2)
                  else None)
           else None))"

text \<open>The search: the first position, from the left, where the pattern matches.\<close>

fun re_search_sitemap :: "string \<Rightarrow> (string \<times> string) option" where
  "re_search_sitemap [] = match_sitemap []"
| "re_search_sitemap (c # cs) =
     (case match_sitemap (c # cs) of
        Some g \<Rightarrow> Some g
      | None \<Rightarrow> re_search_sitemap cs)"

text \<open>
  The inner loop, lines 123 to 132, from the state in which \<^verbatim>\<open>i\<close> and
  \<^verbatim>\<open>articles\<close> have the given values and the given addresses are still to come.
  The \<^verbatim>\<open>except Exception\<close> catches every exception of the model.
\<close>

fun scrape_loop ::
  "world \<Rightarrow> string list \<Rightarrow> nat \<Rightarrow> article list \<Rightarrow> state \<Rightarrow> article list \<times> state" where
  "scrape_loop w [] i articles st = (articles, st)"
| "scrape_loop w (u # us) i articles st =
     (if i > 10 then (articles, st)
      else
        (case scrape_article w st u of
           (Inr a, st') \<Rightarrow> scrape_loop w us (i + 1) (articles @ [a]) st'
         | (Inl e, st') \<Rightarrow>
             scrape_loop w us (i + 1) articles (st'\<lparr>stdout := stdout st' @ [Failed u e]\<rparr>)))"

text \<open>
  The body of the outer loop, lines 114 to 135, for one monthly sitemap. The first
  component is the exception that leaves it, if any: one raised while the article
  addresses are listed is not caught.
\<close>

definition process_sitemap :: "world \<Rightarrow> state \<Rightarrow> string \<Rightarrow> exn option \<times> state" where
  "process_sitemap w st sitemap_url =
     (case re_search_sitemap sitemap_url of
        None \<Rightarrow> (None, st)
      | Some (year, month) \<Rightarrow>
          (let st1 = st\<lparr>stdout := stdout st @ [Processing year month]\<rparr> in
           case get_article_urls w st1 sitemap_url of
             (Inl e, st2) \<Rightarrow> (Some e, st2)
           | (Inr article_urls, st2) \<Rightarrow>
               (case scrape_loop w article_urls 0 [] st2 of
                  (articles, st3) \<Rightarrow>
                    (let st4 = save_to_json articles year month st3
                     in (None, st4\<lparr>stdout := stdout st4 @ [Saved year month]\<rparr>)))))"

text \<open>The outer loop, line 112, which an exception ends.\<close>

fun sitemaps_loop :: "world \<Rightarrow> string list \<Rightarrow> state \<Rightarrow> exn option \<times> state" where
  "sitemaps_loop w [] st = (None, st)"
| "sitemaps_loop w (sitemap_url # rest) st =
     (case process_sitemap w st sitemap_url of
        (Some e, st') \<Rightarrow> (Some e, st')
      | (None, st') \<Rightarrow> sitemaps_loop w rest st')"

text \<open>\<^verbatim>\<open>main\<close>, lines 103 to 135, run from the given state.\<close>

definition main :: "world \<Rightarrow> state \<Rightarrow> exn option \<times> state" where
  "main w st =
     (let sitemap_index_url = ''https://www.almayadeen.net/sitemaps/all.xml'';
          st1 = st\<lparr>stdout := stdout st @ [Retrieving]\<rparr>
      in case get_monthly_sitemaps w st1 sitemap_index_url of
           (Inl e, st2) \<Rightarrow> (Some e, st2)
         | (Inr monthly_sitemaps, st2) \<Rightarrow> sitemaps_loop w monthly_sitemaps st2)"

section \<open>Worlds to run the model in\<close>

text \<open>
  A world given by tables: the bodies behind the addresses, the documents the parser
  makes of the bodies, and what \<^verbatim>\<open>json.loads\<close> does with the JSON texts. A request
  fails when its number and address are listed in \<open>down\<close> or when the address has no
  body. The parser of these worlds rejects nothing, as \<^verbatim>\<open>html.parser\<close> does: a
  body with no document listed is given the document without elements, which is that of
  a body without tags. A text that is not listed is rejected with
  \<^verbatim>\<open>JSONDecodeError\<close>.
\<close>

definition table_world ::
  "(nat \<times> string) list \<Rightarrow> (string \<times> string) list \<Rightarrow> (string \<times> soup) list \<Rightarrow>
   (string \<times> (exn + pyval)) list \<Rightarrow> world" where
  "table_world down bodies docs decoded =
     \<lparr> requests_get =
         (\<lambda>n u. if (n, u) \<in> set down then Inl FetchError
                else (case map_of bodies u of Some b \<Rightarrow> Inr b | None \<Rightarrow> Inl FetchError)),
       BeautifulSoup =
         (\<lambda>b. case map_of docs b of Some sp \<Rightarrow> Inr sp | None \<Rightarrow> Inr []),
       json_loads =
         (\<lambda>s. case map_of decoded s of Some r \<Rightarrow> r | None \<Rightarrow> Inl JSONDecodeError) \<rparr>"

definition empty_state :: state where
  "empty_state = \<lparr> requests = [], stdout = [], written = [] \<rparr>"

definition script_element :: "string \<Rightarrow> element" where
  "script_element s =
     \<lparr> tag_name = ''script'', tag_id = Some ''tawsiyat-metadata'', tag_text = s \<rparr>"

definition p_element :: "string \<Rightarrow> element" where
  "p_element s = \<lparr> tag_name = ''p'', tag_id = None, tag_text = s \<rparr>"

text \<open>An article page: the metadata script with the given text, then one paragraph.\<close>

definition script_page :: "string \<Rightarrow> string \<Rightarrow> string" where
  "script_page j para =
     ''<script id=tawsiyat-metadata>'' @ j @ ''</script><p>'' @ para @ ''</p>''"

definition script_soup :: "string \<Rightarrow> string \<Rightarrow> soup" where
  "script_soup j para = [script_element j, p_element para]"

text \<open>
  The JSON texts of the example pages with what \<^verbatim>\<open>json.loads\<close> does with them.
  The text \<^verbatim>\<open>{"title": }\<close> of the page \<^verbatim>\<open>bad\<close> is not JSON and is rejected
  with \<^verbatim>\<open>JSONDecodeError\<close>.
\<close>

definition json_kw :: string where
  "json_kw = ''{\"keywords\": \"a,b,c\"}''"

definition json_list :: string where
  "json_list = ''{\"keywords\": [\"a\"]}''"

definition json_null :: string where
  "json_null = ''{\"keywords\": null}''"

definition json_full :: string where
  "json_full = ''{\"title\": \"T\", \"keywords\": \"x,y\", \"html\": \"<b>x</b>\", \"word_count\": 7}''"

definition json_bad :: string where
  "json_bad = ''{\"title\": }''"

definition json_texts :: "(string \<times> (exn + pyval)) list" where
  "json_texts =
     [(json_kw, Inr (PDict [(''keywords'', PStr ''a,b,c'')])),
      (json_list, Inr (PDict [(''keywords'', PList [PStr ''a''])])),
      (json_null, Inr (PDict [(''keywords'', PNone)])),
      (json_full, Inr (PDict [(''title'', PStr ''T''), (''keywords'', PStr ''x,y''),
                              (''html'', PStr ''<b>x</b>''), (''word_count'', PInt 7)])),
      (json_bad, Inl JSONDecodeError)]"

definition demo_pages :: "(string \<times> string \<times> string) list" where
  "demo_pages =
     [(''http://a/kw'', json_kw, ''Hi''),
      (''http://a/list'', json_list, ''Hi''),
      (''http://a/null'', json_null, ''Hi''),
      (''http://a/full'', json_full, ''Hi''),
      (''http://a/full2'', json_full, ''Other text''),
      (''http://a/bad'', json_bad, ''Hi'')]"

text \<open>
  The page \<^verbatim>\<open>none\<close> has no script element, and the body of \<^verbatim>\<open>raw\<close> is not
  markup: the parser takes it for text, a document without elements.
\<close>

definition demo_world :: world where
  "demo_world =
     table_world []
       ((''http://a/none'', ''<p>Hi</p>'')
        # (''http://a/raw'', ''%PDF-1.4'')
        # map (\<lambda>(u, j, para). (u, script_page j para)) demo_pages)
       ((''<p>Hi</p>'', [p_element ''Hi''])
        # (''%PDF-1.4'', [])
        # map (\<lambda>(u, j, para). (script_page j para, script_soup j para)) demo_pages)
       json_texts"

text \<open>
  Two texts on which \<^verbatim>\<open>json.loads\<close> raises \<^verbatim>\<open>ValueError\<close>, for an integer
  of 5000 digits: \<open>json_huge\<close> is well formed; in \<open>json_huge_bad\<close> a comma before
  the closing brace makes the text malformed, and the decoder meets the integer first.
  Each of the two worlds has one page, whose script is the text.
\<close>

definition json_huge :: string where
  "json_huge = CHR ''{'' # (''\"word_count\": '' @ replicate 5000 (CHR ''9'')) @ [CHR ''}'']"

definition json_huge_bad :: string where
  "json_huge_bad =
     CHR ''{'' # (''\"word_count\": '' @ replicate 5000 (CHR ''9'') @ '', '') @ [CHR ''}'']"

definition huge_world :: world where
  "huge_world =
     table_world []
       [(''http://a/huge'', script_page json_huge ''Hi'')]
       [(script_page json_huge ''Hi'', script_soup json_huge ''Hi'')]
       [(json_huge, Inl ValueError)]"

definition huge_bad_world :: world where
  "huge_bad_world =
     table_world []
       [(''http://a/hugebad'', script_page json_huge_bad ''Hi'')]
       [(script_page json_huge_bad ''Hi'', script_soup json_huge_bad ''Hi'')]
       [(json_huge_bad, Inl ValueError)]"

section \<open>Notions used to state the properties\<close>

text \<open>The names of the sixteen fields, which are the keys of \<open>asdict\<close>.\<close>

definition field_names :: "string list" where
  "field_names =
     [''type'', ''postid'', ''title'', ''url'', ''keywords'', ''thumbnail'',
      ''video_duration'', ''word_count'', ''lang'', ''published_time'', ''last_updated'',
      ''description'', ''author'', ''classes'', ''html'', ''lite_url'']"

text \<open>Every field of the record is \<^verbatim>\<open>None\<close>.\<close>

definition all_null :: "article \<Rightarrow> bool" where
  "all_null a = list_all (\<lambda>(k, v). v = PNone) (asdict a)"

text \<open>
  The record that lines 66 to 83 build from the empty dictionary: the default of
  \<^verbatim>\<open>get\<close> in every field, which is \<^verbatim>\<open>None\<close> but in three of them.
\<close>

definition empty_metadata_article :: article where
  "empty_metadata_article =
     \<lparr> type = PNone, postid = PNone, title = PNone, url = PNone, keywords' = [[]],
       thumbnail = PNone, video_duration = PNone, word_count = PNone, lang = PNone,
       published_time = PNone, last_updated = PNone, description = PNone, author = PNone,
       classes = PList [], html = PStr [], lite_url = PNone \<rparr>"

text \<open>The default that line 66 to 83 give \<^verbatim>\<open>get\<close> for a key.\<close>

definition field_default :: "string \<Rightarrow> pyval" where
  "field_default k =
     (if k = ''classes'' then PList [] else if k = ''html'' then PStr [] else PNone)"

text \<open>The elements of a document that are not paragraphs.\<close>

definition non_paragraphs :: "soup \<Rightarrow> soup" where
  "non_paragraphs sp = filter (\<lambda>e. tag_name e \<noteq> ''p'') sp"

text \<open>
  The strings that the pattern of line 114 matches: \<^verbatim>\<open>sitemap-\<close>, a year of four
  digits, a hyphen, a month of one or two digits, and \<^verbatim>\<open>.xml\<close>.
\<close>

definition sitemap_name :: "string \<Rightarrow> string \<Rightarrow> string" where
  "sitemap_name y m = ''sitemap-'' @ y @ ''-'' @ m @ ''.xml''"

definition year_month :: "string \<Rightarrow> string \<Rightarrow> bool" where
  "year_month y m \<longleftrightarrow>
     length y = 4 \<and> list_all is_digit y \<and> (length m = 1 \<or> length m = 2) \<and> list_all is_digit m"

text \<open>
  What \<open>scrape_article\<close> returns for an address when \<open>n\<close> requests were made
  before: the result depends on the state through the number of requests only.
\<close>

definition attempt :: "world \<Rightarrow> nat \<Rightarrow> string \<Rightarrow> exn + article" where
  "attempt w n u =
     fst (scrape_article w \<lparr> requests = replicate n [], stdout = [], written = [] \<rparr> u)"

section \<open>A month of fifteen articles\<close>

text \<open>
  A world for the driver: the sitemap of July 2023 lists fifteen articles, named by the
  letters \<^verbatim>\<open>a\<close> to \<^verbatim>\<open>o\<close>; the page of an article carries its letter as
  \<^verbatim>\<open>postid\<close>. The requests number 6 and 10, which are those for the articles at the
  indices 5 and 9 when the sitemap is the first request, fail.
\<close>

definition letters :: string where
  "letters = ''abcdefghijklmno''"

definition letter_url :: "char \<Rightarrow> string" where
  "letter_url c = ''http://a/'' @ [c]"

definition letter_json :: "char \<Rightarrow> string" where
  "letter_json c = ''{\"postid\": \"'' @ [c] @ ''\"}''"

definition loc_element :: "string \<Rightarrow> element" where
  "loc_element u = \<lparr> tag_name = ''loc'', tag_id = None, tag_text = u \<rparr>"

definition month_url :: string where
  "month_url = ''https://www.almayadeen.net/sitemaps/sitemap-2023-7.xml''"

definition month_body :: string where
  "month_body = concat (map (\<lambda>c. ''<loc>'' @ letter_url c @ ''</loc>'') letters)"

definition month_soup :: soup where
  "month_soup = map (\<lambda>c. loc_element (letter_url c)) letters"

definition month_world :: world where
  "month_world =
     table_world [(6, letter_url (CHR ''f'')), (10, letter_url (CHR ''j''))]
       ((month_url, month_body)
        # map (\<lambda>c. (letter_url c, script_page (letter_json c) ''Hi'')) letters)
       ((month_body, month_soup)
        # map (\<lambda>c. (script_page (letter_json c) ''Hi'', script_soup (letter_json c) ''Hi''))
            letters)
       (map (\<lambda>c. (letter_json c, Inr (PDict [(''postid'', PStr [c])]))) letters)"

text \<open>The record of the article with the given letter.\<close>

definition postid_article :: "char \<Rightarrow> article" where
  "postid_article c = empty_metadata_article\<lparr>postid := PStr [c]\<rparr>"

section \<open>Properties of the string operations\<close>

text \<open>
  Three facts that determine \<open>py_split\<close>: there is one piece more than there are
  separators, no piece holds the separator, and joining the pieces with the separator
  gives the string back.
\<close>

lemma py_split_nonempty: "py_split sep s \<noteq> []"
  by (induction s) auto

lemma py_split_length: "length (py_split sep s) = Suc (count_list s sep)"
  by (induction s) (auto simp: py_split_nonempty)

lemma py_split_no_sep: "p \<in> set (py_split sep s) \<Longrightarrow> sep \<notin> set p"
proof (induction s arbitrary: p)
  case Nil
  then show ?case by simp
next
  case (Cons c cs)
  obtain q qs where q: "py_split sep cs = q # qs"
    using py_split_nonempty [of sep cs] by (cases "py_split sep cs") auto
  show ?case
  proof (cases "c = sep")
    case True
    with Cons show ?thesis by auto
  next
    case False
    with Cons.prems q have "p = c # q \<or> p \<in> set qs" by auto
    with Cons.IH q False show ?thesis by auto
  qed
qed

lemma py_join_split: "py_join [sep] (py_split sep s) = s"
proof (induction s)
  case Nil
  then show ?case by simp
next
  case (Cons c cs)
  obtain q qs where q: "py_split sep cs = q # qs"
    using py_split_nonempty [of sep cs] by (cases "py_split sep cs") auto
  show ?case
  proof (cases "c = sep")
    case True
    with Cons q show ?thesis by simp
  next
    case False
    with Cons q show ?thesis by (cases qs) auto
  qed
qed

section \<open>What \<open>scrape_article\<close> returns\<close>

lemma scrape_article_result:
  "requests_get w (length (requests st)) u = Inr r \<Longrightarrow> BeautifulSoup w r = Inr sp \<Longrightarrow>
   soup_metadata w sp = Inr m \<Longrightarrow> fst (scrape_article w st u) = make_article m"
  by (simp add: scrape_article_def scrape_soup_def)

lemma scrape_article_raised:
  "requests_get w (length (requests st)) u = Inr r \<Longrightarrow> BeautifulSoup w r = Inr sp \<Longrightarrow>
   soup_metadata w sp = Inl e \<Longrightarrow> fst (scrape_article w st u) = Inl e"
  by (simp add: scrape_article_def scrape_soup_def)

lemmas demo_defs =
  demo_world_def table_world_def demo_pages_def json_texts_def script_page_def
  script_soup_def script_element_def p_element_def empty_state_def
  json_kw_def json_list_def json_null_def json_full_def json_bad_def

lemmas scrape_defs =
  soup_metadata_def soup_find_def extract_metadata_def re_search_braces_def

text \<open>
  C6. The \<^verbatim>\<open>keywords\<close> field of the record is the metadata's keyword string split
  at its commas: the string \<^verbatim>\<open>a,b,c\<close> gives the three pieces \<^verbatim>\<open>a\<close>, \<^verbatim>\<open>b\<close>,
  \<^verbatim>\<open>c\<close>, and a missing entry or the empty string gives the one-element list holding
  the empty string.
\<close>

theorem keywords_split:
  assumes "requests_get w (length (requests st)) u = Inr r"
    and "BeautifulSoup w r = Inr sp"
    and "soup_metadata w sp = Inr (PDict d)"
  shows "(\<forall>s. map_of d ''keywords'' = Some (PStr s) \<longrightarrow>
            (\<exists>a. fst (scrape_article w st u) = Inr a \<and> keywords' a = py_split (CHR '','') s))
       \<and> (map_of d ''keywords'' = Some (PStr ''a,b,c'') \<longrightarrow>
            (\<exists>a. fst (scrape_article w st u) = Inr a \<and> keywords' a = [''a'', ''b'', ''c'']))
       \<and> (map_of d ''keywords'' = None \<or> map_of d ''keywords'' = Some (PStr []) \<longrightarrow>
            (\<exists>a. fst (scrape_article w st u) = Inr a \<and> keywords' a = [[]]))"
proof -
  have res: "fst (scrape_article w st u) = make_article (PDict d)"
    using scrape_article_result [OF assms] .
  show ?thesis
    unfolding res by (auto simp: make_article_def dict_get_def)
qed

theorem keywords_split_witness:
  "requests_get demo_world (length (requests empty_state)) ''http://a/kw''
     = Inr (script_page json_kw ''Hi'')
   \<and> BeautifulSoup demo_world (script_page json_kw ''Hi'') = Inr (script_soup json_kw ''Hi'')
   \<and> soup_metadata demo_world (script_soup json_kw ''Hi'')
       = Inr (PDict [(''keywords'', PStr ''a,b,c'')])
   \<and> (\<exists>a. fst (scrape_article demo_world empty_state ''http://a/kw'') = Inr a
          \<and> keywords' a = [''a'', ''b'', ''c''])
   \<and> requests_get demo_world (length (requests empty_state)) ''http://a/none'' = Inr ''<p>Hi</p>''
   \<and> BeautifulSoup demo_world ''<p>Hi</p>'' = Inr [p_element ''Hi'']
   \<and> soup_metadata demo_world [p_element ''Hi''] = Inr (PDict [])
   \<and> (\<exists>a. fst (scrape_article demo_world empty_state ''http://a/none'') = Inr a
          \<and> keywords' a = [[]])"
proof -
  have g1: "requests_get demo_world (length (requests empty_state)) ''http://a/kw''
              = Inr (script_page json_kw ''Hi'')"
    by (simp add: demo_defs)
  have p1: "BeautifulSoup demo_world (script_page json_kw ''Hi'') = Inr (script_soup json_kw ''Hi'')"
    by (simp add: demo_defs)
  have m1: "soup_metadata demo_world (script_soup json_kw ''Hi'')
              = Inr (PDict [(''keywords'', PStr ''a,b,c'')])"
    by (simp add: demo_defs scrape_defs)
  have g2: "requests_get demo_world (length (requests empty_state)) ''http://a/none''
              = Inr ''<p>Hi</p>''"
    by (simp add: demo_defs)
  have p2: "BeautifulSoup demo_world ''<p>Hi</p>'' = Inr [p_element ''Hi'']"
    by (simp add: demo_defs)
  have m2: "soup_metadata demo_world [p_element ''Hi''] = Inr (PDict [])"
    by (simp add: demo_defs scrape_defs)
  from keywords_split [OF g1 p1 m1] keywords_split [OF g2 p2 m2] g1 p1 m1 g2 p2 m2
  show ?thesis by simp
qed

section \<open>The brace span\<close>

lemma re_search_braces_span:
  assumes "CHR ''{'' \<notin> set pre" and "CHR ''}'' \<notin> set post"
  shows "re_search_braces (pre @ CHR ''{'' # mid @ CHR ''}'' # post)
           = Some (CHR ''{'' # mid @ [CHR ''}''])"
proof -
  have first: "dropWhile (\<lambda>c. c \<noteq> CHR ''{'') (pre @ CHR ''{'' # mid @ CHR ''}'' # post)
                 = CHR ''{'' # mid @ CHR ''}'' # post"
    using assms(1) by (auto simp: dropWhile_append3)
  have "dropWhile (\<lambda>c. c \<noteq> CHR ''}'') (rev post @ CHR ''}'' # rev mid) = CHR ''}'' # rev mid"
    using assms(2) by (auto simp: dropWhile_append3)
  then have last: "dropWhile (\<lambda>c. c \<noteq> CHR ''}'') (rev (mid @ CHR ''}'' # post))
                     = CHR ''}'' # rev mid"
    by simp
  show ?thesis
    unfolding re_search_braces_def first list.case last by simp
qed

lemma re_search_braces_found:
  assumes "re_search_braces s = Some j"
  shows "\<exists>pre mid post. s = pre @ CHR ''{'' # mid @ CHR ''}'' # post
           \<and> CHR ''{'' \<notin> set pre \<and> CHR ''}'' \<notin> set post \<and> j = CHR ''{'' # mid @ [CHR ''}'']"
proof -
  obtain c rest where d1: "dropWhile (\<lambda>c. c \<noteq> CHR ''{'') s = c # rest"
    using assms by (auto simp: re_search_braces_def split: list.splits)
  have c: "c = CHR ''{''"
    using d1 hd_dropWhile [of "\<lambda>c. c \<noteq> CHR ''{''" s] by simp
  define pre where "pre = takeWhile (\<lambda>c. c \<noteq> CHR ''{'') s"
  have s: "s = pre @ CHR ''{'' # rest"
    using takeWhile_dropWhile_id [of "\<lambda>c. c \<noteq> CHR ''{''" s] d1 c by (simp add: pre_def)
  have pre: "CHR ''{'' \<notin> set pre"
    unfolding pre_def by (auto dest: set_takeWhileD)
  obtain x t where d2: "dropWhile (\<lambda>c. c \<noteq> CHR ''}'') (rev rest) = x # t"
    and j: "j = c # rev (x # t)"
    using assms d1 by (auto simp: re_search_braces_def split: list.splits)
  have x: "x = CHR ''}''"
    using d2 hd_dropWhile [of "\<lambda>c. c \<noteq> CHR ''}''" "rev rest"] by simp
  define q where "q = takeWhile (\<lambda>c. c \<noteq> CHR ''}'') (rev rest)"
  have "rev rest = q @ CHR ''}'' # t"
    using takeWhile_dropWhile_id [of "\<lambda>c. c \<noteq> CHR ''}''" "rev rest"] d2 x by (simp add: q_def)
  then have "rev (rev rest) = rev (q @ CHR ''}'' # t)"
    by simp
  then have rest: "rest = rev t @ CHR ''}'' # rev q"
    by simp
  have q: "CHR ''}'' \<notin> set (rev q)"
    unfolding q_def by (auto dest: set_takeWhileD)
  from s rest pre q j c x show ?thesis
    by (intro exI [of _ pre] exI [of _ "rev t"] exI [of _ "rev q"]) simp
qed

lemma re_search_braces_none:
  assumes "\<nexists>pre mid post. s = pre @ CHR ''{'' # mid @ CHR ''}'' # post"
  shows "re_search_braces s = None"
proof (cases "re_search_braces s")
  case None
  then show ?thesis .
next
  case (Some j)
  from re_search_braces_found [OF this] assms show ?thesis by blast
qed

lemma brace_span_exists:
  assumes "s = pre @ CHR ''{'' # mid @ CHR ''}'' # post"
  shows "\<exists>pre' mid' post'. s = pre' @ CHR ''{'' # mid' @ CHR ''}'' # post'
           \<and> CHR ''{'' \<notin> set pre' \<and> CHR ''}'' \<notin> set post'"
proof -
  obtain pre1 mid1 where left: "s = pre1 @ CHR ''{'' # mid1 @ CHR ''}'' # post"
    and pre1: "CHR ''{'' \<notin> set pre1"
  proof (cases "CHR ''{'' \<in> set pre")
    case True
    then obtain a b where "pre = a @ CHR ''{'' # b" and "CHR ''{'' \<notin> set a"
      by (auto dest: split_list_first)
    with assms that [of a "b @ CHR ''{'' # mid"] show ?thesis by simp
  next
    case False
    with assms that [of pre mid] show ?thesis by simp
  qed
  obtain mid2 post2 where "s = pre1 @ CHR ''{'' # mid2 @ CHR ''}'' # post2"
    and "CHR ''}'' \<notin> set post2"
  proof (cases "CHR ''}'' \<in> set post")
    case True
    then obtain c d where "post = c @ CHR ''}'' # d" and "CHR ''}'' \<notin> set d"
      by (auto dest: split_list_last)
    with left that [of "mid1 @ CHR ''}'' # c" d] show ?thesis by simp
  next
    case False
    with left that [of mid1 post] show ?thesis by simp
  qed
  with pre1 show ?thesis by blast
qed

section \<open>Pages without metadata, and the exceptions\<close>

lemma make_article_empty: "make_article (PDict []) = Inr empty_metadata_article"
  by (simp add: make_article_def dict_get_def empty_metadata_article_def)

lemma make_article_raises:
  "make_article m = Inl e \<Longrightarrow>
     e = AttributeError \<and>
     (case m of
        PDict d \<Rightarrow> (\<exists>v. map_of d ''keywords'' = Some v \<and> (\<forall>s. v \<noteq> PStr s))
      | _ \<Rightarrow> True)"
  by (auto simp: make_article_def dict_get_def split: pyval.splits option.splits)

lemma make_article_returns:
  "map_of d ''keywords'' = None \<or> map_of d ''keywords'' = Some (PStr s) \<Longrightarrow>
     \<exists>a. make_article (PDict d) = Inr a"
  by (auto simp: make_article_def dict_get_def)

lemma soup_metadata_no_script:
  "soup_find sp ''script'' ''tawsiyat-metadata'' = None \<Longrightarrow> soup_metadata w sp = Inr (PDict [])"
  by (simp add: soup_metadata_def)

lemma soup_metadata_undecodable:
  "soup_find sp ''script'' ''tawsiyat-metadata'' = Some t \<Longrightarrow>
   re_search_braces (tag_text t) = Some j \<Longrightarrow> json_loads w j = Inl JSONDecodeError \<Longrightarrow>
   soup_metadata w sp = Inr (PDict [])"
  by (simp add: soup_metadata_def extract_metadata_def)

lemma soup_metadata_decoded:
  "soup_find sp ''script'' ''tawsiyat-metadata'' = Some t \<Longrightarrow>
   re_search_braces (tag_text t) = Some j \<Longrightarrow> json_loads w j = Inr v \<Longrightarrow>
   soup_metadata w sp = Inr v"
  by (simp add: soup_metadata_def extract_metadata_def)

lemma soup_metadata_raised:
  "soup_find sp ''script'' ''tawsiyat-metadata'' = Some t \<Longrightarrow>
   re_search_braces (tag_text t) = Some j \<Longrightarrow> json_loads w j = Inl e \<Longrightarrow>
   e \<noteq> JSONDecodeError \<Longrightarrow> soup_metadata w sp = Inl e"
  by (simp add: soup_metadata_def extract_metadata_def)

lemma soup_metadata_raises:
  "soup_metadata w sp = Inl e \<Longrightarrow>
     \<exists>t j. soup_find sp ''script'' ''tawsiyat-metadata'' = Some t
       \<and> re_search_braces (tag_text t) = Some j
       \<and> json_loads w j = Inl e \<and> e \<noteq> JSONDecodeError"
  by (auto simp: soup_metadata_def extract_metadata_def
      split: option.splits sum.splits if_splits)

text \<open>
  C3, as amended. For a page with no script element carrying the marker id,
  \<open>scrape_article\<close> does not raise and returns the record of the empty metadata:
  every field is \<^verbatim>\<open>None\<close>, except \<^verbatim>\<open>keywords\<close>, which is the list holding the
  empty string, \<^verbatim>\<open>classes\<close>, which is the empty list, and \<^verbatim>\<open>html\<close>, which
  is the empty string.
\<close>

theorem no_script_record:
  assumes "requests_get w (length (requests st)) u = Inr r"
    and "BeautifulSoup w r = Inr sp"
    and "soup_find sp ''script'' ''tawsiyat-metadata'' = None"
  shows "fst (scrape_article w st u) =
           Inr \<lparr> type = PNone, postid = PNone, title = PNone, url = PNone, keywords' = [[]],
                 thumbnail = PNone, video_duration = PNone, word_count = PNone, lang = PNone,
                 published_time = PNone, last_updated = PNone, description = PNone,
                 author = PNone, classes = PList [], html = PStr [], lite_url = PNone \<rparr>"
  using scrape_article_result [OF assms(1,2) soup_metadata_no_script [OF assms(3)]]
  by (simp add: make_article_empty empty_metadata_article_def)

theorem no_script_record_witness:
  "requests_get demo_world (length (requests empty_state)) ''http://a/none'' = Inr ''<p>Hi</p>''
   \<and> BeautifulSoup demo_world ''<p>Hi</p>'' = Inr [p_element ''Hi'']
   \<and> soup_find [p_element ''Hi''] ''script'' ''tawsiyat-metadata'' = None
   \<and> fst (scrape_article demo_world empty_state ''http://a/none'') = Inr empty_metadata_article"
proof -
  have g: "requests_get demo_world (length (requests empty_state)) ''http://a/none''
             = Inr ''<p>Hi</p>''"
    by (simp add: demo_defs)
  have p: "BeautifulSoup demo_world ''<p>Hi</p>'' = Inr [p_element ''Hi'']"
    by (simp add: demo_defs)
  have f: "soup_find [p_element ''Hi''] ''script'' ''tawsiyat-metadata'' = None"
    by (simp add: soup_find_def p_element_def)
  from no_script_record [OF g p f] g p f show ?thesis
    by (simp add: empty_metadata_article_def)
qed

text \<open>
  The claim C3 as it is written fails on the page \<^verbatim>\<open><p>Hi</p>\<close>, which has no
  script element: three fields of the record returned for it are not \<^verbatim>\<open>None\<close>.
\<close>

theorem no_script_not_all_null:
  "requests_get demo_world (length (requests empty_state)) ''http://a/none'' = Inr ''<p>Hi</p>''
   \<and> BeautifulSoup demo_world ''<p>Hi</p>'' = Inr [p_element ''Hi'']
   \<and> soup_find [p_element ''Hi''] ''script'' ''tawsiyat-metadata'' = None
   \<and> fst (scrape_article demo_world empty_state ''http://a/none'') = Inr empty_metadata_article
   \<and> keywords' empty_metadata_article = [[]]
   \<and> classes empty_metadata_article = PList []
   \<and> html empty_metadata_article = PStr []
   \<and> \<not> all_null empty_metadata_article"
proof -
  have "fst (scrape_article demo_world empty_state ''http://a/none'') = Inr empty_metadata_article"
    by (simp add: demo_defs scrape_article_def scrape_soup_def scrape_defs make_article_empty)
  moreover have "\<not> all_null empty_metadata_article"
    by (simp add: all_null_def asdict_def empty_metadata_article_def)
  ultimately show ?thesis
    by (simp add: demo_defs soup_find_def empty_metadata_article_def)
qed

text \<open>
  C4, as amended. For a page whose metadata script holds malformed JSON that
  \<^verbatim>\<open>json.loads\<close> rejects with \<^verbatim>\<open>JSONDecodeError\<close>, \<open>scrape_article\<close> does
  not raise, and the record it returns is the one returned for any page with no
  metadata script element.
\<close>

theorem malformed_json_record:
  assumes "requests_get w (length (requests st)) u = Inr r"
    and "BeautifulSoup w r = Inr sp"
    and "soup_find sp ''script'' ''tawsiyat-metadata'' = Some t"
    and "re_search_braces (tag_text t) = Some j"
    and "json_loads w j = Inl JSONDecodeError"
  shows "(\<exists>a. fst (scrape_article w st u) = Inr a)
       \<and> (\<forall>st' u' r' sp'.
             requests_get w (length (requests st')) u' = Inr r'
             \<and> BeautifulSoup w r' = Inr sp'
             \<and> soup_find sp' ''script'' ''tawsiyat-metadata'' = None
             \<longrightarrow> fst (scrape_article w st u) = fst (scrape_article w st' u'))"
proof -
  have this_page: "fst (scrape_article w st u) = Inr empty_metadata_article"
    using scrape_article_result [OF assms(1,2) soup_metadata_undecodable [OF assms(3,4,5)]]
    by (simp add: make_article_empty)
  have "fst (scrape_article w st' u') = Inr empty_metadata_article"
    if "requests_get w (length (requests st')) u' = Inr r'" and "BeautifulSoup w r' = Inr sp'"
      and "soup_find sp' ''script'' ''tawsiyat-metadata'' = None" for st' u' r' sp'
    using scrape_article_result [OF that(1,2) soup_metadata_no_script [OF that(3)]]
    by (simp add: make_article_empty)
  with this_page show ?thesis by auto
qed

theorem malformed_json_record_witness:
  "requests_get demo_world (length (requests empty_state)) ''http://a/bad''
     = Inr (script_page json_bad ''Hi'')
   \<and> BeautifulSoup demo_world (script_page json_bad ''Hi'') = Inr (script_soup json_bad ''Hi'')
   \<and> soup_find (script_soup json_bad ''Hi'') ''script'' ''tawsiyat-metadata''
       = Some (script_element json_bad)
   \<and> re_search_braces (tag_text (script_element json_bad)) = Some json_bad
   \<and> json_loads demo_world json_bad = Inl JSONDecodeError
   \<and> requests_get demo_world (length (requests empty_state)) ''http://a/none'' = Inr ''<p>Hi</p>''
   \<and> BeautifulSoup demo_world ''<p>Hi</p>'' = Inr [p_element ''Hi'']
   \<and> soup_find [p_element ''Hi''] ''script'' ''tawsiyat-metadata'' = None
   \<and> fst (scrape_article demo_world empty_state ''http://a/bad'')
       = fst (scrape_article demo_world empty_state ''http://a/none'')
   \<and> (\<exists>a. fst (scrape_article demo_world empty_state ''http://a/bad'') = Inr a)"
proof -
  have g: "requests_get demo_world (length (requests empty_state)) ''http://a/bad''
             = Inr (script_page json_bad ''Hi'')"
    by (simp add: demo_defs)
  have p: "BeautifulSoup demo_world (script_page json_bad ''Hi'') = Inr (script_soup json_bad ''Hi'')"
    by (simp add: demo_defs)
  have f: "soup_find (script_soup json_bad ''Hi'') ''script'' ''tawsiyat-metadata''
             = Some (script_element json_bad)"
    by (simp add: soup_find_def script_soup_def script_element_def)
  have b: "re_search_braces (tag_text (script_element json_bad)) = Some json_bad"
    by (simp add: re_search_braces_def script_element_def json_bad_def)
  have l: "json_loads demo_world json_bad = Inl JSONDecodeError"
    by (simp add: demo_defs)
  have g': "requests_get demo_world (length (requests empty_state)) ''http://a/none''
             = Inr ''<p>Hi</p>''"
    by (simp add: demo_defs)
  have p': "BeautifulSoup demo_world ''<p>Hi</p>'' = Inr [p_element ''Hi'']"
    by (simp add: demo_defs)
  have f': "soup_find [p_element ''Hi''] ''script'' ''tawsiyat-metadata'' = None"
    by (simp add: soup_find_def p_element_def)
  from malformed_json_record [OF g p f b l] g' p' f'
  have "fst (scrape_article demo_world empty_state ''http://a/bad'')
          = fst (scrape_article demo_world empty_state ''http://a/none'')
        \<and> (\<exists>a. fst (scrape_article demo_world empty_state ''http://a/bad'') = Inr a)"
    by blast
  then have "fst (scrape_article demo_world empty_state ''http://a/bad'')
               = fst (scrape_article demo_world empty_state ''http://a/none'')"
    and "\<exists>a. fst (scrape_article demo_world empty_state ''http://a/bad'') = Inr a"
    by blast+
  with g p f b l g' p' f' show ?thesis by (intro conjI)
qed

text \<open>
  The claim C4 as it is written fails on a page whose script is an object with an
  integer of 5000 digits and a comma before the closing brace: the text is malformed,
  \<^verbatim>\<open>json.loads\<close> raises \<^verbatim>\<open>ValueError\<close> at the integer, line 91 does not catch
  it, and \<open>scrape_article\<close> raises.
\<close>

theorem huge_integer_raises:
  "json_huge_bad
     = CHR ''{'' # (''\"word_count\": '' @ replicate 5000 (CHR ''9'') @ '', '') @ [CHR ''}'']
   \<and> requests_get huge_bad_world (length (requests empty_state)) ''http://a/hugebad''
       = Inr (script_page json_huge_bad ''Hi'')
   \<and> BeautifulSoup huge_bad_world (script_page json_huge_bad ''Hi'')
       = Inr (script_soup json_huge_bad ''Hi'')
   \<and> soup_find (script_soup json_huge_bad ''Hi'') ''script'' ''tawsiyat-metadata''
       = Some (script_element json_huge_bad)
   \<and> re_search_braces (tag_text (script_element json_huge_bad)) = Some json_huge_bad
   \<and> json_loads huge_bad_world json_huge_bad = Inl ValueError
   \<and> fst (scrape_article huge_bad_world empty_state ''http://a/hugebad'')
       = Inl ValueError"
proof -
  have g: "requests_get huge_bad_world (length (requests empty_state)) ''http://a/hugebad''
             = Inr (script_page json_huge_bad ''Hi'')"
    by (simp add: huge_bad_world_def table_world_def empty_state_def)
  have p: "BeautifulSoup huge_bad_world (script_page json_huge_bad ''Hi'')
             = Inr (script_soup json_huge_bad ''Hi'')"
    by (simp add: huge_bad_world_def table_world_def)
  have f: "soup_find (script_soup json_huge_bad ''Hi'') ''script'' ''tawsiyat-metadata''
             = Some (script_element json_huge_bad)"
    by (simp add: soup_find_def script_soup_def script_element_def)
  have "re_search_braces ([] @ CHR ''{''
            # (''\"word_count\": '' @ replicate 5000 (CHR ''9'') @ '', '') @ CHR ''}'' # [])
          = Some (CHR ''{'' # (''\"word_count\": '' @ replicate 5000 (CHR ''9'') @ '', '')
                   @ [CHR ''}''])"
    by (rule re_search_braces_span) simp_all
  then have "re_search_braces json_huge_bad = Some json_huge_bad"
    unfolding json_huge_bad_def append_Nil .
  then have b: "re_search_braces (tag_text (script_element json_huge_bad)) = Some json_huge_bad"
    by (simp add: script_element_def)
  have l: "json_loads huge_bad_world json_huge_bad = Inl ValueError"
    by (simp add: huge_bad_world_def table_world_def)
  have "soup_metadata huge_bad_world (script_soup json_huge_bad ''Hi'')
          = Inl ValueError"
    using soup_metadata_raised [OF f b l] by simp
  from scrape_article_raised [OF g p this] json_huge_bad_def g p f b l
  show ?thesis by (intro conjI)
qed

text \<open>
  C10. There is a page whose metadata script decodes, to a dictionary whose
  \<^verbatim>\<open>keywords\<close> entry is a JSON array, for which \<open>scrape_article\<close> raises
  instead of returning a record: the page of the example world whose script is
  \<^verbatim>\<open>{"keywords": ["a"]}\<close>.
\<close>

theorem keywords_array_raises:
  "\<exists>w st u r sp t j d.
     requests_get w (length (requests st)) u = Inr r
     \<and> BeautifulSoup w r = Inr sp
     \<and> soup_find sp ''script'' ''tawsiyat-metadata'' = Some t
     \<and> re_search_braces (tag_text t) = Some j
     \<and> json_loads w j = Inr (PDict d)
     \<and> map_of d ''keywords'' = Some (PList [PStr ''a''])
     \<and> fst (scrape_article w st u) = Inl AttributeError"
proof -
  have g: "requests_get demo_world (length (requests empty_state)) ''http://a/list''
             = Inr (script_page json_list ''Hi'')"
    by (simp add: demo_defs)
  have p: "BeautifulSoup demo_world (script_page json_list ''Hi'')
             = Inr (script_soup json_list ''Hi'')"
    by (simp add: demo_defs)
  have f: "soup_find (script_soup json_list ''Hi'') ''script'' ''tawsiyat-metadata''
             = Some (script_element json_list)"
    by (simp add: soup_find_def script_soup_def script_element_def)
  have b: "re_search_braces (tag_text (script_element json_list)) = Some json_list"
    by (simp add: re_search_braces_def script_element_def json_list_def)
  have l: "json_loads demo_world json_list = Inr (PDict [(''keywords'', PList [PStr ''a''])])"
    by (simp add: demo_defs)
  have k: "map_of [(''keywords'', PList [PStr ''a''])] ''keywords'' = Some (PList [PStr ''a''])"
    by simp
  have "fst (scrape_article demo_world empty_state ''http://a/list'') = Inl AttributeError"
    using scrape_article_result [OF g p soup_metadata_decoded [OF f b l]]
    by (simp add: make_article_def dict_get_def)
  with g p f b l k show ?thesis by blast
qed

text \<open>
  C2, as amended. \<open>scrape_article\<close> raises only when the request fails, when the
  parser rejects the body, when \<^verbatim>\<open>json.loads\<close> raises an exception other than
  \<^verbatim>\<open>JSONDecodeError\<close> on the brace span of the metadata script (\<^verbatim>\<open>ValueError\<close>
  for an integer of more than 4300 digits, \<^verbatim>\<open>RecursionError\<close> for a nesting deeper
  than the recursion limit), or, with \<^verbatim>\<open>AttributeError\<close>, when the metadata has a
  \<^verbatim>\<open>keywords\<close> entry that is not a string (a decoded value that is not a
  dictionary would raise the same). For every other input, so whenever the metadata is
  obtained and its \<^verbatim>\<open>keywords\<close> is missing or a string, whichever other keys are
  there or not, it returns a record.
\<close>

theorem raises_only:
  "(\<forall>e. fst (scrape_article w st u) = Inl e \<longrightarrow>
       requests_get w (length (requests st)) u = Inl e
     \<or> (\<exists>r. requests_get w (length (requests st)) u = Inr r \<and> BeautifulSoup w r = Inl e)
     \<or> (e \<noteq> JSONDecodeError \<and>
        (\<exists>r sp t j. requests_get w (length (requests st)) u = Inr r \<and> BeautifulSoup w r = Inr sp
           \<and> soup_find sp ''script'' ''tawsiyat-metadata'' = Some t
           \<and> re_search_braces (tag_text t) = Some j
           \<and> json_loads w j = Inl e))
     \<or> (e = AttributeError \<and>
        (\<exists>r sp m. requests_get w (length (requests st)) u = Inr r \<and> BeautifulSoup w r = Inr sp
           \<and> soup_metadata w sp = Inr m \<and>
           (case m of
              PDict d \<Rightarrow> (\<exists>v. map_of d ''keywords'' = Some v \<and> (\<forall>s. v \<noteq> PStr s))
            | _ \<Rightarrow> True))))
   \<and> (\<forall>r sp d. requests_get w (length (requests st)) u = Inr r \<and> BeautifulSoup w r = Inr sp
         \<and> soup_metadata w sp = Inr (PDict d)
         \<and> (map_of d ''keywords'' = None \<or> (\<exists>s. map_of d ''keywords'' = Some (PStr s)))
         \<longrightarrow> (\<exists>a. fst (scrape_article w st u) = Inr a))"
proof (intro conjI allI impI)
  fix e
  assume raised: "fst (scrape_article w st u) = Inl e"
  show "requests_get w (length (requests st)) u = Inl e
     \<or> (\<exists>r. requests_get w (length (requests st)) u = Inr r \<and> BeautifulSoup w r = Inl e)
     \<or> (e \<noteq> JSONDecodeError \<and>
        (\<exists>r sp t j. requests_get w (length (requests st)) u = Inr r \<and> BeautifulSoup w r = Inr sp
           \<and> soup_find sp ''script'' ''tawsiyat-metadata'' = Some t
           \<and> re_search_braces (tag_text t) = Some j
           \<and> json_loads w j = Inl e))
     \<or> (e = AttributeError \<and>
        (\<exists>r sp m. requests_get w (length (requests st)) u = Inr r \<and> BeautifulSoup w r = Inr sp
           \<and> soup_metadata w sp = Inr m \<and>
           (case m of
              PDict d \<Rightarrow> (\<exists>v. map_of d ''keywords'' = Some v \<and> (\<forall>s. v \<noteq> PStr s))
            | _ \<Rightarrow> True)))"
  proof (cases "requests_get w (length (requests st)) u")
    case (Inl e')
    with raised show ?thesis by (simp add: scrape_article_def)
  next
    case got: (Inr r)
    show ?thesis
    proof (cases "BeautifulSoup w r")
      case (Inl e')
      with raised got show ?thesis by (simp add: scrape_article_def)
    next
      case parsed: (Inr sp)
      show ?thesis
      proof (cases "soup_metadata w sp")
        case (Inl e')
        from scrape_article_raised [OF got parsed Inl] raised have "e' = e" by simp
        with soup_metadata_raises [OF Inl]
        obtain t j where "soup_find sp ''script'' ''tawsiyat-metadata'' = Some t"
          and "re_search_braces (tag_text t) = Some j"
          and "json_loads w j = Inl e" and "e \<noteq> JSONDecodeError"
          by auto
        with got parsed show ?thesis by auto
      next
        case (Inr m)
        from scrape_article_result [OF got parsed Inr] raised
        have "make_article m = Inl e" by simp
        from make_article_raises [OF this] got parsed Inr show ?thesis by auto
      qed
    qed
  qed
next
  fix r sp d
  assume a: "requests_get w (length (requests st)) u = Inr r \<and> BeautifulSoup w r = Inr sp
         \<and> soup_metadata w sp = Inr (PDict d)
         \<and> (map_of d ''keywords'' = None \<or> (\<exists>s. map_of d ''keywords'' = Some (PStr s)))"
  then have "fst (scrape_article w st u) = make_article (PDict d)"
    using scrape_article_result [of w st u r sp "PDict d"] by simp
  with a show "\<exists>a. fst (scrape_article w st u) = Inr a"
    using make_article_returns [of d] by auto
qed

theorem raises_only_witness:
  "fst (scrape_article demo_world empty_state ''http://a/missing'') = Inl FetchError
   \<and> requests_get demo_world (length (requests empty_state)) ''http://a/missing'' = Inl FetchError
   \<and> json_huge = CHR ''{'' # (''\"word_count\": '' @ replicate 5000 (CHR ''9'')) @ [CHR ''}'']
   \<and> fst (scrape_article huge_world empty_state ''http://a/huge'') = Inl ValueError
   \<and> (\<exists>r sp t j.
          requests_get huge_world (length (requests empty_state)) ''http://a/huge''
            = Inr r
        \<and> BeautifulSoup huge_world r = Inr sp
        \<and> soup_find sp ''script'' ''tawsiyat-metadata'' = Some t
        \<and> re_search_braces (tag_text t) = Some j
        \<and> json_loads huge_world j = Inl ValueError)
   \<and> requests_get demo_world (length (requests empty_state)) ''http://a/kw''
       = Inr (script_page json_kw ''Hi'')
   \<and> BeautifulSoup demo_world (script_page json_kw ''Hi'') = Inr (script_soup json_kw ''Hi'')
   \<and> soup_metadata demo_world (script_soup json_kw ''Hi'')
       = Inr (PDict [(''keywords'', PStr ''a,b,c'')])
   \<and> (\<exists>a. fst (scrape_article demo_world empty_state ''http://a/kw'') = Inr a)"
proof -
  have e1: "fst (scrape_article demo_world empty_state ''http://a/missing'') = Inl FetchError"
    by (simp add: demo_defs scrape_article_def)
  have g1: "requests_get demo_world (length (requests empty_state)) ''http://a/missing''
              = Inl FetchError"
    by (simp add: demo_defs)
  have g2: "requests_get huge_world (length (requests empty_state)) ''http://a/huge''
              = Inr (script_page json_huge ''Hi'')"
    by (simp add: huge_world_def table_world_def empty_state_def)
  have p2: "BeautifulSoup huge_world (script_page json_huge ''Hi'')
              = Inr (script_soup json_huge ''Hi'')"
    by (simp add: huge_world_def table_world_def)
  have f2: "soup_find (script_soup json_huge ''Hi'') ''script'' ''tawsiyat-metadata''
              = Some (script_element json_huge)"
    by (simp add: soup_find_def script_soup_def script_element_def)
  have "re_search_braces ([] @ CHR ''{''
            # (''\"word_count\": '' @ replicate 5000 (CHR ''9'')) @ CHR ''}'' # [])
          = Some (CHR ''{'' # (''\"word_count\": '' @ replicate 5000 (CHR ''9'')) @ [CHR ''}''])"
    by (rule re_search_braces_span) simp_all
  then have "re_search_braces json_huge = Some json_huge"
    unfolding json_huge_def append_Nil .
  then have b2: "re_search_braces (tag_text (script_element json_huge)) = Some json_huge"
    by (simp add: script_element_def)
  have l2: "json_loads huge_world json_huge = Inl ValueError"
    by (simp add: huge_world_def table_world_def)
  have m2: "soup_metadata huge_world (script_soup json_huge ''Hi'') = Inl ValueError"
    using soup_metadata_raised [OF f2 b2 l2] by simp
  have e2: "fst (scrape_article huge_world empty_state ''http://a/huge'')
              = Inl ValueError"
    by (rule scrape_article_raised [OF g2 p2 m2])
  have "requests_get huge_world (length (requests empty_state)) ''http://a/huge''
          = Inl ValueError
     \<or> (\<exists>r. requests_get huge_world (length (requests empty_state)) ''http://a/huge''
              = Inr r \<and> BeautifulSoup huge_world r = Inl ValueError)
     \<or> (ValueError \<noteq> JSONDecodeError \<and>
        (\<exists>r sp t j.
            requests_get huge_world (length (requests empty_state)) ''http://a/huge''
              = Inr r
          \<and> BeautifulSoup huge_world r = Inr sp
          \<and> soup_find sp ''script'' ''tawsiyat-metadata'' = Some t
          \<and> re_search_braces (tag_text t) = Some j
          \<and> json_loads huge_world j = Inl ValueError))
     \<or> (ValueError = AttributeError \<and>
        (\<exists>r sp m.
            requests_get huge_world (length (requests empty_state)) ''http://a/huge''
              = Inr r
          \<and> BeautifulSoup huge_world r = Inr sp
          \<and> soup_metadata huge_world sp = Inr m \<and>
           (case m of
              PDict d \<Rightarrow> (\<exists>v. map_of d ''keywords'' = Some v \<and> (\<forall>s. v \<noteq> PStr s))
            | _ \<Rightarrow> True)))"
    by (rule raises_only [of huge_world empty_state "''http://a/huge''",
          THEN conjunct1, THEN spec, THEN mp, OF e2])
  then have x2: "\<exists>r sp t j.
          requests_get huge_world (length (requests empty_state)) ''http://a/huge''
            = Inr r
        \<and> BeautifulSoup huge_world r = Inr sp
        \<and> soup_find sp ''script'' ''tawsiyat-metadata'' = Some t
        \<and> re_search_braces (tag_text t) = Some j
        \<and> json_loads huge_world j = Inl ValueError"
    unfolding g2 using p2 by (elim disjE conjE exE) simp_all
  have g3: "requests_get demo_world (length (requests empty_state)) ''http://a/kw''
              = Inr (script_page json_kw ''Hi'')"
    by (simp add: demo_defs)
  have p3: "BeautifulSoup demo_world (script_page json_kw ''Hi'') = Inr (script_soup json_kw ''Hi'')"
    by (simp add: demo_defs)
  have m3: "soup_metadata demo_world (script_soup json_kw ''Hi'')
              = Inr (PDict [(''keywords'', PStr ''a,b,c'')])"
    by (simp add: demo_defs scrape_defs)
  have k3: "map_of [(''keywords'', PStr ''a,b,c'')] ''keywords'' = Some (PStr ''a,b,c'')"
    by simp
  have "requests_get demo_world (length (requests empty_state)) ''http://a/kw''
          = Inr (script_page json_kw ''Hi'')
        \<and> BeautifulSoup demo_world (script_page json_kw ''Hi'') = Inr (script_soup json_kw ''Hi'')
        \<and> soup_metadata demo_world (script_soup json_kw ''Hi'')
            = Inr (PDict [(''keywords'', PStr ''a,b,c'')])
        \<and> (map_of [(''keywords'', PStr ''a,b,c'')] ''keywords'' = None
           \<or> (\<exists>s. map_of [(''keywords'', PStr ''a,b,c'')] ''keywords'' = Some (PStr s)))"
    using g3 p3 m3 k3 by (intro conjI disjI2 exI [of _ "''a,b,c''"])
  then have x3: "\<exists>a. fst (scrape_article demo_world empty_state ''http://a/kw'') = Inr a"
    by (rule raises_only [of demo_world empty_state "''http://a/kw''",
          THEN conjunct2, THEN spec, THEN spec, THEN spec, THEN mp])
  from e1 g1 json_huge_def e2 x2 g3 p3 m3 x3 show ?thesis by (intro conjI)
qed

text \<open>
  The claim C2 as it is written fails on the page whose script is
  \<^verbatim>\<open>{"keywords": null}\<close>: the request and the parser succeed, the JSON is well
  formed, and \<open>scrape_article\<close> raises \<^verbatim>\<open>AttributeError\<close>.
\<close>

theorem keywords_null_raises:
  "requests_get demo_world (length (requests empty_state)) ''http://a/null''
     = Inr (script_page json_null ''Hi'')
   \<and> BeautifulSoup demo_world (script_page json_null ''Hi'') = Inr (script_soup json_null ''Hi'')
   \<and> re_search_braces (tag_text (script_element json_null)) = Some json_null
   \<and> json_loads demo_world json_null = Inr (PDict [(''keywords'', PNone)])
   \<and> fst (scrape_article demo_world empty_state ''http://a/null'') = Inl AttributeError"
proof -
  have "fst (scrape_article demo_world empty_state ''http://a/null'') = Inl AttributeError"
    by (simp add: demo_defs scrape_article_def scrape_soup_def scrape_defs make_article_def
        dict_get_def)
  moreover have "re_search_braces (tag_text (script_element json_null)) = Some json_null"
    by (simp add: re_search_braces_def script_element_def json_null_def)
  ultimately show ?thesis by (simp add: demo_defs)
qed

text \<open>
  C1, as amended. When the metadata script of a page embeds the dictionary \<open>M\<close> and
  the \<^verbatim>\<open>keywords\<close> entry of \<open>M\<close> is missing or a string, \<open>scrape_article\<close>
  returns a record in which every field but \<^verbatim>\<open>keywords\<close> holds the value \<open>M\<close>
  has under the field's name, with the default of the field when \<open>M\<close> has none
  (\<^verbatim>\<open>[]\<close> for \<^verbatim>\<open>classes\<close>, the empty string for \<^verbatim>\<open>html\<close>, \<^verbatim>\<open>None\<close> for
  the others), and in which \<^verbatim>\<open>keywords\<close> is the keyword string of \<open>M\<close> split at
  its commas.
\<close>

theorem metadata_round_trip:
  assumes "requests_get w (length (requests st)) u = Inr r"
    and "BeautifulSoup w r = Inr sp"
    and "soup_find sp ''script'' ''tawsiyat-metadata'' = Some t"
    and "re_search_braces (tag_text t) = Some j"
    and "json_loads w j = Inr (PDict M)"
    and "dict_get M ''keywords'' (PStr []) = PStr s"
  shows "\<exists>a. fst (scrape_article w st u) = Inr a
           \<and> keywords' a = py_split (CHR '','') s
           \<and> (\<forall>k \<in> set field_names. k \<noteq> ''keywords'' \<longrightarrow>
                 map_of (asdict a) k = Some (dict_get M k (field_default k)))
           \<and> (\<forall>k \<in> set field_names. \<forall>v. k \<noteq> ''keywords'' \<and> map_of M k = Some v \<longrightarrow>
                 map_of (asdict a) k = Some v)"
proof -
  have res: "fst (scrape_article w st u) = make_article (PDict M)"
    by (rule scrape_article_result [OF assms(1,2) soup_metadata_decoded [OF assms(3,4,5)]])
  obtain a where a: "make_article (PDict M) = Inr a"
    using assms(6) by (simp add: make_article_def)
  have kw: "keywords' a = py_split (CHR '','') s"
    using a assms(6) by (auto simp: make_article_def)
  have dict: "asdict a =
     [(''type'', dict_get M ''type'' PNone), (''postid'', dict_get M ''postid'' PNone),
      (''title'', dict_get M ''title'' PNone), (''url'', dict_get M ''url'' PNone),
      (''keywords'', PList (map PStr (py_split (CHR '','') s))),
      (''thumbnail'', dict_get M ''thumbnail'' PNone),
      (''video_duration'', dict_get M ''video_duration'' PNone),
      (''word_count'', dict_get M ''word_count'' PNone),
      (''lang'', dict_get M ''lang'' PNone),
      (''published_time'', dict_get M ''published_time'' PNone),
      (''last_updated'', dict_get M ''last_updated'' PNone),
      (''description'', dict_get M ''description'' PNone),
      (''author'', dict_get M ''author'' PNone),
      (''classes'', dict_get M ''classes'' (PList [])),
      (''html'', dict_get M ''html'' (PStr [])),
      (''lite_url'', dict_get M ''lite_url'' PNone)]"
    using a assms(6) by (auto simp: make_article_def asdict_def)
  have fields: "map_of (asdict a) k = Some (dict_get M k (field_default k))"
    if "k \<in> set field_names" "k \<noteq> ''keywords''" for k
  proof -
    from that(1) have "k = ''type'' \<or> k = ''postid'' \<or> k = ''title'' \<or> k = ''url''
        \<or> k = ''keywords'' \<or> k = ''thumbnail'' \<or> k = ''video_duration''
        \<or> k = ''word_count'' \<or> k = ''lang'' \<or> k = ''published_time''
        \<or> k = ''last_updated'' \<or> k = ''description'' \<or> k = ''author''
        \<or> k = ''classes'' \<or> k = ''html'' \<or> k = ''lite_url''"
      by (simp add: field_names_def)
    with that(2) show ?thesis
      unfolding dict by (elim disjE) (simp_all add: field_default_def)
  qed
  have "map_of (asdict a) k = Some v"
    if "k \<in> set field_names" "k \<noteq> ''keywords''" "map_of M k = Some v" for k v
    using fields [OF that(1,2)] that(3) by (simp add: dict_get_def)
  with res a kw fields show ?thesis by auto
qed

theorem metadata_round_trip_witness:
  "requests_get demo_world (length (requests empty_state)) ''http://a/full''
     = Inr (script_page json_full ''Hi'')
   \<and> BeautifulSoup demo_world (script_page json_full ''Hi'') = Inr (script_soup json_full ''Hi'')
   \<and> soup_find (script_soup json_full ''Hi'') ''script'' ''tawsiyat-metadata''
       = Some (script_element json_full)
   \<and> re_search_braces (tag_text (script_element json_full)) = Some json_full
   \<and> json_loads demo_world json_full
       = Inr (PDict [(''title'', PStr ''T''), (''keywords'', PStr ''x,y''),
                      (''html'', PStr ''<b>x</b>''), (''word_count'', PInt 7)])
   \<and> (\<exists>a. fst (scrape_article demo_world empty_state ''http://a/full'') = Inr a
          \<and> keywords' a = [''x'', ''y'']
          \<and> map_of (asdict a) ''title'' = Some (PStr ''T'')
          \<and> map_of (asdict a) ''html'' = Some (PStr ''<b>x</b>'')
          \<and> map_of (asdict a) ''word_count'' = Some (PInt 7)
          \<and> map_of (asdict a) ''author'' = Some PNone)"
proof -
  let ?M = "[(''title'', PStr ''T''), (''keywords'', PStr ''x,y''),
             (''html'', PStr ''<b>x</b>''), (''word_count'', PInt 7)]"
  have g: "requests_get demo_world (length (requests empty_state)) ''http://a/full''
             = Inr (script_page json_full ''Hi'')"
    by (simp add: demo_defs)
  have p: "BeautifulSoup demo_world (script_page json_full ''Hi'')
             = Inr (script_soup json_full ''Hi'')"
    by (simp add: demo_defs)
  have f: "soup_find (script_soup json_full ''Hi'') ''script'' ''tawsiyat-metadata''
             = Some (script_element json_full)"
    by (simp add: soup_find_def script_soup_def script_element_def)
  have b: "re_search_braces (tag_text (script_element json_full)) = Some json_full"
    by (simp add: re_search_braces_def script_element_def json_full_def)
  have l: "json_loads demo_world json_full = Inr (PDict ?M)"
    by (simp add: demo_defs)
  have k: "dict_get ?M ''keywords'' (PStr []) = PStr ''x,y''"
    by (simp add: dict_get_def)
  from metadata_round_trip [OF g p f b l k]
  obtain a where res: "fst (scrape_article demo_world empty_state ''http://a/full'') = Inr a"
    and kw: "keywords' a = py_split (CHR '','') ''x,y''"
    and fields: "\<And>k. k \<in> set field_names \<Longrightarrow> k \<noteq> ''keywords'' \<Longrightarrow>
                   map_of (asdict a) k = Some (dict_get ?M k (field_default k))"
    by blast
  have "keywords' a = [''x'', ''y'']"
    using kw by simp
  moreover have "map_of (asdict a) ''title'' = Some (PStr ''T'')"
    using fields [of "''title''"] by (simp add: field_names_def dict_get_def)
  moreover have "map_of (asdict a) ''html'' = Some (PStr ''<b>x</b>'')"
    using fields [of "''html''"] by (simp add: field_names_def dict_get_def)
  moreover have "map_of (asdict a) ''word_count'' = Some (PInt 7)"
    using fields [of "''word_count''"] by (simp add: field_names_def dict_get_def)
  moreover have "map_of (asdict a) ''author'' = Some PNone"
    using fields [of "''author''"]
    by (simp add: field_names_def dict_get_def field_default_def)
  ultimately show ?thesis
    using g p f b l res by (intro conjI exI [of _ a])
qed

text \<open>
  The claim C1 as it is written fails on the page whose script is
  \<^verbatim>\<open>{"keywords": "a,b,c"}\<close>: the \<^verbatim>\<open>keywords\<close> field of the record is
  a list of three strings, and the metadata has one string under that key.
\<close>

theorem keywords_field_differs:
  "requests_get demo_world (length (requests empty_state)) ''http://a/kw''
     = Inr (script_page json_kw ''Hi'')
   \<and> BeautifulSoup demo_world (script_page json_kw ''Hi'') = Inr (script_soup json_kw ''Hi'')
   \<and> soup_find (script_soup json_kw ''Hi'') ''script'' ''tawsiyat-metadata''
       = Some (script_element json_kw)
   \<and> re_search_braces (tag_text (script_element json_kw)) = Some json_kw
   \<and> json_loads demo_world json_kw = Inr (PDict [(''keywords'', PStr ''a,b,c'')])
   \<and> map_of [(''keywords'', PStr ''a,b,c'')] ''keywords'' = Some (PStr ''a,b,c'')
   \<and> (case fst (scrape_article demo_world empty_state ''http://a/kw'') of
         Inr a \<Rightarrow> map_of (asdict a) ''keywords''
       | Inl e \<Rightarrow> None) = Some (PList [PStr ''a'', PStr ''b'', PStr ''c''])
   \<and> PList [PStr ''a'', PStr ''b'', PStr ''c''] \<noteq> PStr ''a,b,c''"
proof -
  have g: "requests_get demo_world (length (requests empty_state)) ''http://a/kw''
             = Inr (script_page json_kw ''Hi'')"
    by (simp add: demo_defs)
  have p: "BeautifulSoup demo_world (script_page json_kw ''Hi'') = Inr (script_soup json_kw ''Hi'')"
    by (simp add: demo_defs)
  have f: "soup_find (script_soup json_kw ''Hi'') ''script'' ''tawsiyat-metadata''
             = Some (script_element json_kw)"
    by (simp add: soup_find_def script_soup_def script_element_def)
  have b: "re_search_braces (tag_text (script_element json_kw)) = Some json_kw"
    by (simp add: re_search_braces_def script_element_def json_kw_def)
  have l: "json_loads demo_world json_kw = Inr (PDict [(''keywords'', PStr ''a,b,c'')])"
    by (simp add: demo_defs)
  have "fst (scrape_article demo_world empty_state ''http://a/kw'')
          = make_article (PDict [(''keywords'', PStr ''a,b,c'')])"
    by (rule scrape_article_result [OF g p soup_metadata_decoded [OF f b l]])
  then have "(case fst (scrape_article demo_world empty_state ''http://a/kw'') of
                Inr a \<Rightarrow> map_of (asdict a) ''keywords''
              | Inl e \<Rightarrow> None) = Some (PList [PStr ''a'', PStr ''b'', PStr ''c''])"
    by (simp add: make_article_def dict_get_def asdict_def)
  with g p f b l show ?thesis by simp
qed

lemma find_filter:
  "(\<And>x. P x \<Longrightarrow> Q x) \<Longrightarrow> List.find P (filter Q xs) = List.find P xs"
  by (induction xs) auto

lemma soup_find_non_paragraphs:
  "soup_find (non_paragraphs sp) ''script'' ident = soup_find sp ''script'' ident"
  unfolding soup_find_def non_paragraphs_def by (rule find_filter) auto

lemma soup_metadata_non_paragraphs:
  "non_paragraphs sp' = non_paragraphs sp \<Longrightarrow> soup_metadata w sp' = soup_metadata w sp"
  using soup_find_non_paragraphs [of sp "''tawsiyat-metadata''"]
    soup_find_non_paragraphs [of sp' "''tawsiyat-metadata''"]
  by (simp add: soup_metadata_def)

text \<open>
  C7. The \<^verbatim>\<open>html\<close> field of the record is the value of the metadata under the key
  \<^verbatim>\<open>html\<close>, the empty string when there is none, and the result does not depend on
  the paragraphs of the page: two pages that differ in their \<^verbatim>\<open>p\<close> elements only
  give the same result, so the paragraph text that is computed is not stored.
\<close>

theorem html_from_metadata:
  assumes "requests_get w (length (requests st)) u = Inr r"
    and "BeautifulSoup w r = Inr sp"
  shows "(\<forall>a. fst (scrape_article w st u) = Inr a \<longrightarrow>
            (\<exists>d. soup_metadata w sp = Inr (PDict d) \<and> html a = dict_get d ''html'' (PStr [])))
       \<and> (\<forall>st' u' r' sp'.
             requests_get w (length (requests st')) u' = Inr r'
             \<and> BeautifulSoup w r' = Inr sp'
             \<and> non_paragraphs sp' = non_paragraphs sp
             \<longrightarrow> fst (scrape_article w st' u') = fst (scrape_article w st u))"
proof (intro conjI allI impI)
  fix a
  assume res: "fst (scrape_article w st u) = Inr a"
  show "\<exists>d. soup_metadata w sp = Inr (PDict d) \<and> html a = dict_get d ''html'' (PStr [])"
  proof (cases "soup_metadata w sp")
    case (Inl e)
    from scrape_article_raised [OF assms Inl] res show ?thesis by simp
  next
    case (Inr m)
    from scrape_article_result [OF assms Inr] res have "make_article m = Inr a" by simp
    with Inr show ?thesis
      by (auto simp: make_article_def split: pyval.splits)
  qed
next
  fix st' :: state and u' r' sp'
  assume "requests_get w (length (requests st')) u' = Inr r'
          \<and> BeautifulSoup w r' = Inr sp' \<and> non_paragraphs sp' = non_paragraphs sp"
  with assms soup_metadata_non_paragraphs [of sp' sp w]
  show "fst (scrape_article w st' u') = fst (scrape_article w st u)"
    by (simp add: scrape_article_def scrape_soup_def Let_def split: sum.splits)
qed

theorem html_from_metadata_witness:
  "requests_get demo_world (length (requests empty_state)) ''http://a/full''
     = Inr (script_page json_full ''Hi'')
   \<and> BeautifulSoup demo_world (script_page json_full ''Hi'') = Inr (script_soup json_full ''Hi'')
   \<and> requests_get demo_world (length (requests empty_state)) ''http://a/full2''
       = Inr (script_page json_full ''Other text'')
   \<and> BeautifulSoup demo_world (script_page json_full ''Other text'')
       = Inr (script_soup json_full ''Other text'')
   \<and> non_paragraphs (script_soup json_full ''Other text'')
       = non_paragraphs (script_soup json_full ''Hi'')
   \<and> soup_find_all (script_soup json_full ''Other text'') ''p'' = [p_element ''Other text'']
   \<and> soup_find_all (script_soup json_full ''Hi'') ''p'' = [p_element ''Hi'']
   \<and> fst (scrape_article demo_world empty_state ''http://a/full2'')
       = fst (scrape_article demo_world empty_state ''http://a/full'')
   \<and> (\<exists>a. fst (scrape_article demo_world empty_state ''http://a/full'') = Inr a
          \<and> html a = PStr ''<b>x</b>'')"
proof -
  have g: "requests_get demo_world (length (requests empty_state)) ''http://a/full''
             = Inr (script_page json_full ''Hi'')"
    by (simp add: demo_defs)
  have p: "BeautifulSoup demo_world (script_page json_full ''Hi'')
             = Inr (script_soup json_full ''Hi'')"
    by (simp add: demo_defs)
  have g': "requests_get demo_world (length (requests empty_state)) ''http://a/full2''
             = Inr (script_page json_full ''Other text'')"
    by (simp add: demo_defs)
  have p': "BeautifulSoup demo_world (script_page json_full ''Other text'')
             = Inr (script_soup json_full ''Other text'')"
    by (simp add: demo_defs)
  have n: "non_paragraphs (script_soup json_full ''Other text'')
             = non_paragraphs (script_soup json_full ''Hi'')"
    by (simp add: non_paragraphs_def script_soup_def script_element_def p_element_def)
  have a1: "soup_find_all (script_soup json_full ''Other text'') ''p'' = [p_element ''Other text'']"
    by (simp add: soup_find_all_def script_soup_def script_element_def p_element_def)
  have a2: "soup_find_all (script_soup json_full ''Hi'') ''p'' = [p_element ''Hi'']"
    by (simp add: soup_find_all_def script_soup_def script_element_def p_element_def)
  have m: "soup_metadata demo_world (script_soup json_full ''Hi'')
             = Inr (PDict [(''title'', PStr ''T''), (''keywords'', PStr ''x,y''),
                           (''html'', PStr ''<b>x</b>''), (''word_count'', PInt 7)])"
    by (simp add: demo_defs scrape_defs)
  have r: "\<exists>a. fst (scrape_article demo_world empty_state ''http://a/full'') = Inr a"
    using scrape_article_result [OF g p m] by (simp add: make_article_def dict_get_def)
  note inst = html_from_metadata [OF g p]
  note step = inst [THEN conjunct2, THEN spec, THEN spec, THEN spec, THEN spec, THEN mp]
  have same: "fst (scrape_article demo_world empty_state ''http://a/full2'')
                = fst (scrape_article demo_world empty_state ''http://a/full'')"
    by (rule step, intro conjI, rule g', rule p', rule n)
  from r obtain a where a: "fst (scrape_article demo_world empty_state ''http://a/full'') = Inr a"
    by (rule exE)
  from inst [THEN conjunct1, THEN spec, THEN mp, OF a]
  obtain d where d: "soup_metadata demo_world (script_soup json_full ''Hi'') = Inr (PDict d)"
    and h: "html a = dict_get d ''html'' (PStr [])"
    by (elim exE conjE)
  from d m have "d = [(''title'', PStr ''T''), (''keywords'', PStr ''x,y''),
                      (''html'', PStr ''<b>x</b>''), (''word_count'', PInt 7)]"
    by simp
  with h have "html a = PStr ''<b>x</b>''"
    by (simp add: dict_get_def)
  with a have "\<exists>a. fst (scrape_article demo_world empty_state ''http://a/full'') = Inr a
           \<and> html a = PStr ''<b>x</b>''"
    by (intro exI [of _ a] conjI)
  with g p g' p' n a1 a2 same show ?thesis by (intro conjI)
qed

section \<open>What is decoded\<close>

text \<open>
  C8. \<open>extract_metadata\<close> takes the span of the text from its first opening brace to
  its last closing brace, the greedy match, and returns what \<^verbatim>\<open>json.loads\<close> makes
  of it; when the text has no opening brace with a closing brace after it, the result
  is the empty dictionary. Whenever the text has such a pair at all, it has the span.
\<close>

theorem extract_metadata_span:
  "(\<forall>pre mid post.
      s = pre @ CHR ''{'' # mid @ CHR ''}'' # post
      \<and> CHR ''{'' \<notin> set pre \<and> CHR ''}'' \<notin> set post
      \<longrightarrow> extract_metadata w s =
            (case json_loads w (CHR ''{'' # mid @ [CHR ''}'']) of
               Inr metadata \<Rightarrow> Inr metadata
             | Inl e \<Rightarrow> if e = JSONDecodeError then Inr (PDict []) else Inl e))
   \<and> ((\<nexists>pre mid post. s = pre @ CHR ''{'' # mid @ CHR ''}'' # post)
      \<longrightarrow> extract_metadata w s = Inr (PDict []))
   \<and> ((\<exists>pre mid post. s = pre @ CHR ''{'' # mid @ CHR ''}'' # post)
      \<longrightarrow> (\<exists>pre mid post. s = pre @ CHR ''{'' # mid @ CHR ''}'' # post
             \<and> CHR ''{'' \<notin> set pre \<and> CHR ''}'' \<notin> set post))"
proof (intro conjI allI impI)
  fix pre mid post
  assume "s = pre @ CHR ''{'' # mid @ CHR ''}'' # post
          \<and> CHR ''{'' \<notin> set pre \<and> CHR ''}'' \<notin> set post"
  then show "extract_metadata w s =
               (case json_loads w (CHR ''{'' # mid @ [CHR ''}'']) of
                  Inr metadata \<Rightarrow> Inr metadata
                | Inl e \<Rightarrow> if e = JSONDecodeError then Inr (PDict []) else Inl e)"
    by (simp add: extract_metadata_def re_search_braces_span)
next
  assume "\<nexists>pre mid post. s = pre @ CHR ''{'' # mid @ CHR ''}'' # post"
  then show "extract_metadata w s = Inr (PDict [])"
    by (simp add: extract_metadata_def re_search_braces_none)
next
  assume "\<exists>pre mid post. s = pre @ CHR ''{'' # mid @ CHR ''}'' # post"
  then show "\<exists>pre mid post. s = pre @ CHR ''{'' # mid @ CHR ''}'' # post
               \<and> CHR ''{'' \<notin> set pre \<and> CHR ''}'' \<notin> set post"
    using brace_span_exists by blast
qed

theorem extract_metadata_span_witness:
  "''var m = {\"keywords\": \"a,b,c\"};''
     = ''var m = '' @ CHR ''{'' # ''\"keywords\": \"a,b,c\"'' @ CHR ''}'' # '';''
   \<and> CHR ''{'' \<notin> set ''var m = ''
   \<and> CHR ''}'' \<notin> set '';''
   \<and> extract_metadata demo_world ''var m = {\"keywords\": \"a,b,c\"};''
       = Inr (PDict [(''keywords'', PStr ''a,b,c'')])
   \<and> (\<nexists>pre mid post. ''} no span {'' = pre @ CHR ''{'' # mid @ CHR ''}'' # post)
   \<and> extract_metadata demo_world ''} no span {'' = Inr (PDict [])"
proof -
  let ?s = "''var m = {\"keywords\": \"a,b,c\"};''"
  let ?t = "''} no span {''"
  have split: "?s = ''var m = '' @ CHR ''{'' # ''\"keywords\": \"a,b,c\"'' @ CHR ''}'' # '';''"
    by simp
  have pre: "CHR ''{'' \<notin> set ''var m = ''"
    by simp
  have post: "CHR ''}'' \<notin> set '';''"
    by simp
  have loads: "json_loads demo_world (CHR ''{'' # ''\"keywords\": \"a,b,c\"'' @ [CHR ''}''])
                 = Inr (PDict [(''keywords'', PStr ''a,b,c'')])"
    by (simp add: demo_defs)
  note inst = extract_metadata_span [of ?s demo_world]
  have "extract_metadata demo_world ?s =
          (case json_loads demo_world (CHR ''{'' # ''\"keywords\": \"a,b,c\"'' @ [CHR ''}'']) of
             Inr metadata \<Rightarrow> Inr metadata
           | Inl e \<Rightarrow> if e = JSONDecodeError then Inr (PDict []) else Inl e)"
    by (rule inst [THEN conjunct1, THEN spec, THEN spec, THEN spec, THEN mp])
      (intro conjI, rule split, rule pre, rule post)
  then have found: "extract_metadata demo_world ?s
                      = Inr (PDict [(''keywords'', PStr ''a,b,c'')])"
    by (simp only: loads sum.case)
  have none: "\<nexists>pre mid post. ?t = pre @ CHR ''{'' # mid @ CHR ''}'' # post"
  proof
    assume "\<exists>pre mid post. ?t = pre @ CHR ''{'' # mid @ CHR ''}'' # post"
    with extract_metadata_span [of ?t demo_world]
    obtain pre mid post where t: "?t = pre @ CHR ''{'' # mid @ CHR ''}'' # post"
      and a: "CHR ''{'' \<notin> set pre" and b: "CHR ''}'' \<notin> set post"
      by blast
    have "re_search_braces ?t = Some (CHR ''{'' # mid @ [CHR ''}''])"
      unfolding t by (rule re_search_braces_span [OF a b])
    moreover have "re_search_braces ?t = None"
      by (simp add: re_search_braces_def)
    ultimately show False by simp
  qed
  from extract_metadata_span [of ?t demo_world] none
  have "extract_metadata demo_world ?t = Inr (PDict [])"
    by (elim conjE) (rule mp)
  with split pre post found none show ?thesis by (intro conjI)
qed

section \<open>The sitemap pattern\<close>

lemma strip_prefix_Some: "strip_prefix p s = Some r \<longleftrightarrow> s = p @ r"
proof (induction p arbitrary: s)
  case Nil
  then show ?case by auto
next
  case (Cons a p)
  then show ?case by (cases s) auto
qed

lemma strip_prefix_append: "strip_prefix p (p @ r) = Some r"
  by (simp add: strip_prefix_Some)

lemma match_sitemap_matches:
  assumes "year_month y m"
  shows "match_sitemap (sitemap_name y m @ rest) = Some (y, m)"
proof -
  from assms have y: "length y = 4" "list_all is_digit y" and m: "list_all is_digit m"
    and len: "length m = 1 \<or> length m = 2"
    by (simp_all add: year_month_def)
  have sp: "strip_prefix ''sitemap-'' (sitemap_name y m @ rest)
              = Some (y @ ''-'' @ m @ ''.xml'' @ rest)"
    unfolding sitemap_name_def by (simp only: append_assoc strip_prefix_append)
  have hy: "strip_prefix ''-'' (drop 4 (y @ ''-'' @ m @ ''.xml'' @ rest))
              = Some (m @ ''.xml'' @ rest)"
    using y(1) by (simp add: strip_prefix_Some)
  from len show ?thesis
  proof
    assume "length m = 2"
    then have "take 2 (m @ ''.xml'' @ rest) = m" "drop 2 (m @ ''.xml'' @ rest) = ''.xml'' @ rest"
      by simp_all
    with sp hy y m \<open>length m = 2\<close> show ?thesis
      by (simp add: match_sitemap_def strip_prefix_append)
  next
    assume one: "length m = 1"
    then obtain d where d: "m = [d]"
      by (cases m) auto
    have "\<not> is_digit (CHR ''.'')"
      by (simp add: is_digit_def)
    then have two: "\<not> list_all is_digit (take 2 (m @ ''.xml'' @ rest))"
      using d by simp
    have "take 1 (m @ ''.xml'' @ rest) = m" "drop 1 (m @ ''.xml'' @ rest) = ''.xml'' @ rest"
      using d by simp_all
    with sp hy y m two one show ?thesis
      by (simp add: match_sitemap_def strip_prefix_append)
  qed
qed

lemma match_sitemap_found:
  assumes "match_sitemap s = Some (y, m)"
  shows "year_month y m \<and> (\<exists>rest. s = sitemap_name y m @ rest)"
proof -
  from assms obtain r1 where r1: "strip_prefix ''sitemap-'' s = Some r1"
    by (auto simp: match_sitemap_def split: option.splits)
  then have s: "s = ''sitemap-'' @ r1"
    by (simp only: strip_prefix_Some)
  from assms r1 have y: "y = take 4 r1" "length (take 4 r1) = 4" "list_all is_digit (take 4 r1)"
    by (auto simp: match_sitemap_def Let_def split: option.splits if_splits)
  from assms r1 obtain r2 where r2: "strip_prefix ''-'' (drop 4 r1) = Some r2"
    by (auto simp: match_sitemap_def Let_def split: option.splits if_splits)
  then have d4: "drop 4 r1 = ''-'' @ r2"
    by (simp only: strip_prefix_Some)
  have r1_eq: "r1 = y @ ''-'' @ r2"
    using append_take_drop_id [of 4 r1] y(1) d4 by simp
  from assms r1 r2 y
  have "(length (take 2 r2) = 2 \<and> list_all is_digit (take 2 r2)
          \<and> strip_prefix ''.xml'' (drop 2 r2) \<noteq> None \<and> m = take 2 r2)
      \<or> (length (take 1 r2) = 1 \<and> list_all is_digit (take 1 r2)
          \<and> strip_prefix ''.xml'' (drop 1 r2) \<noteq> None \<and> m = take 1 r2)"
    by (auto simp: match_sitemap_def Let_def split: if_splits)
  then obtain k where k: "k = 1 \<or> k = 2" and lm: "length (take k r2) = k"
    and dm: "list_all is_digit (take k r2)" and m: "m = take k r2"
    and x: "strip_prefix ''.xml'' (drop k r2) \<noteq> None"
    by blast
  from x obtain rest where "strip_prefix ''.xml'' (drop k r2) = Some rest"
    by blast
  then have dk: "drop k r2 = ''.xml'' @ rest"
    by (simp only: strip_prefix_Some)
  have r2_eq: "r2 = m @ ''.xml'' @ rest"
    using append_take_drop_id [of k r2] m dk by simp
  have "year_month y m"
    using y k lm dm m by (auto simp: year_month_def)
  moreover have "s = sitemap_name y m @ rest"
    using s r1_eq r2_eq by (simp add: sitemap_name_def)
  ultimately show ?thesis by blast
qed

lemma no_s_in_tail:
  assumes "year_month y m"
  shows "CHR ''s'' \<notin> set (tl (sitemap_name y m))"
proof -
  have "\<not> is_digit (CHR ''s'')"
    by (simp add: is_digit_def)
  with assms have "CHR ''s'' \<notin> set y" "CHR ''s'' \<notin> set m"
    by (auto simp: year_month_def list_all_iff)
  then show ?thesis
    by (simp add: sitemap_name_def)
qed

lemma match_sitemap_before:
  assumes "match_sitemap (q @ CHR ''s'' # t) = Some g" and "q \<noteq> []"
  shows "match_sitemap q = Some g"
proof -
  obtain y m where g: "g = (y, m)"
    by (cases g)
  from match_sitemap_found [OF assms(1) [unfolded g]]
  obtain rest where ym: "year_month y m" and eq: "q @ CHR ''s'' # t = sitemap_name y m @ rest"
    by blast
  from eq consider us where "q = sitemap_name y m @ us"
    | us where "us \<noteq> []" "q @ us = sitemap_name y m" "CHR ''s'' # t = us @ rest"
    by (auto simp: append_eq_append_conv2) (metis append_Nil2)
  then show ?thesis
  proof cases
    case 1
    with ym g show ?thesis
      by (simp add: match_sitemap_matches)
  next
    case 2
    then have "hd us = CHR ''s''"
      by (cases us) auto
    with 2(1) have "CHR ''s'' \<in> set us"
      by (cases us) auto
    moreover have "set us \<subseteq> set (tl (sitemap_name y m))"
    proof -
      from assms(2) obtain a q' where "q = a # q'"
        by (cases q) auto
      with 2(2) have "tl (sitemap_name y m) = q' @ us"
        by (metis append_Cons list.sel(3))
      then show ?thesis by simp
    qed
    ultimately show ?thesis
      using no_s_in_tail [OF ym] by blast
  qed
qed

lemma re_search_sitemap_suffix:
  assumes "year_month y m" and "re_search_sitemap p = None"
  shows "re_search_sitemap (p @ sitemap_name y m @ rest) = Some (y, m)"
  using assms(2)
proof (induction p)
  case Nil
  have "sitemap_name y m @ rest = CHR ''s'' # tl (sitemap_name y m @ rest)"
    by (simp add: sitemap_name_def)
  then have "re_search_sitemap (sitemap_name y m @ rest)
           = (case match_sitemap (sitemap_name y m @ rest) of
                Some g \<Rightarrow> Some g
              | None \<Rightarrow> re_search_sitemap (tl (sitemap_name y m @ rest)))"
    by (metis re_search_sitemap.simps(2))
  then show ?case
    by (simp add: match_sitemap_matches [OF assms(1)])
next
  case (Cons c p)
  from Cons.prems have no: "match_sitemap (c # p) = None" and rest: "re_search_sitemap p = None"
    by (auto split: option.splits)
  have "match_sitemap ((c # p) @ sitemap_name y m @ rest) = None"
  proof (cases "match_sitemap ((c # p) @ sitemap_name y m @ rest)")
    case None
    then show ?thesis .
  next
    case (Some g)
    have "(c # p) @ sitemap_name y m @ rest
            = (c # p) @ CHR ''s'' # tl (sitemap_name y m @ rest)"
      by (simp add: sitemap_name_def)
    with Some have "match_sitemap ((c # p) @ CHR ''s'' # tl (sitemap_name y m @ rest)) = Some g"
      by simp
    from match_sitemap_before [OF this] no show ?thesis by simp
  qed
  with Cons.IH [OF rest] show ?case by simp
qed

lemma re_search_sitemap_found:
  "re_search_sitemap s = Some (y, m) \<Longrightarrow>
     year_month y m \<and> (\<exists>pre rest. s = pre @ sitemap_name y m @ rest)"
proof (induction s)
  case Nil
  then show ?case
    using match_sitemap_found [of "[]" y m] by simp
next
  case (Cons c s)
  show ?case
  proof (cases "match_sitemap (c # s)")
    case None
    with Cons.prems have "re_search_sitemap s = Some (y, m)" by simp
    from Cons.IH [OF this] obtain pre rest where "year_month y m"
      and "s = pre @ sitemap_name y m @ rest"
      by blast
    then have "year_month y m" and "c # s = (c # pre) @ sitemap_name y m @ rest"
      by simp_all
    then show ?thesis by blast
  next
    case (Some g)
    with Cons.prems have "match_sitemap (c # s) = Some (y, m)" by simp
    from match_sitemap_found [OF this] obtain rest where "year_month y m"
      and "c # s = [] @ sitemap_name y m @ rest"
      by auto
    then show ?thesis by blast
  qed
qed

lemma re_search_sitemap_occurs:
  "year_month y m \<Longrightarrow> re_search_sitemap (pre @ sitemap_name y m @ rest) \<noteq> None"
proof (induction pre)
  case Nil
  have "re_search_sitemap [] = None"
    by (simp add: match_sitemap_def)
  from re_search_sitemap_suffix [OF Nil this, of rest] show ?case by simp
next
  case (Cons c pre)
  then show ?case
    by (cases "match_sitemap (c # pre @ sitemap_name y m @ rest)") auto
qed

lemma re_search_sitemap_None:
  "re_search_sitemap s = None \<longleftrightarrow>
     (\<nexists>pre y m rest. year_month y m \<and> s = pre @ sitemap_name y m @ rest)"
proof
  assume "re_search_sitemap s = None"
  then show "\<nexists>pre y m rest. year_month y m \<and> s = pre @ sitemap_name y m @ rest"
    using re_search_sitemap_occurs by blast
next
  assume none: "\<nexists>pre y m rest. year_month y m \<and> s = pre @ sitemap_name y m @ rest"
  show "re_search_sitemap s = None"
  proof (cases "re_search_sitemap s")
    case None
    then show ?thesis .
  next
    case (Some g)
    obtain y m where "g = (y, m)" by (cases g)
    with Some re_search_sitemap_found [of s y m] none show ?thesis by blast
  qed
qed
text \<open>
  C9, as amended. The driver takes year and month from the leftmost match of the
  pattern \<^verbatim>\<open>sitemap-YYYY-M.xml\<close> in the address: an address that ends in
  \<^verbatim>\<open>sitemap-2023-7.xml\<close> gives the year \<^verbatim>\<open>2023\<close> and the month \<^verbatim>\<open>7\<close> when
  the pattern matches nowhere in the part before it, and so for every year of four
  digits and month of one or two. An address matches nowhere exactly when no part of it
  has that form; such an address is skipped: no exception, nothing requested, printed or
  written, and the loop goes on with the next address.
\<close>

theorem sitemap_year_month:
  "(year_month y m \<and> re_search_sitemap p = None
      \<longrightarrow> re_search_sitemap (p @ sitemap_name y m @ rest) = Some (y, m))
   \<and> (re_search_sitemap p = None
      \<longrightarrow> re_search_sitemap (p @ ''sitemap-2023-7.xml'') = Some (''2023'', ''7''))
   \<and> (re_search_sitemap su = None
      \<longleftrightarrow> (\<nexists>pre y m rest. year_month y m \<and> su = pre @ sitemap_name y m @ rest))
   \<and> (re_search_sitemap su = None \<longrightarrow> process_sitemap w st su = (None, st))
   \<and> (re_search_sitemap su = None
      \<longrightarrow> sitemaps_loop w (su # others) st = sitemaps_loop w others st)"
proof (intro conjI impI)
  assume "year_month y m \<and> re_search_sitemap p = None"
  then show "re_search_sitemap (p @ sitemap_name y m @ rest) = Some (y, m)"
    by (simp add: re_search_sitemap_suffix)
next
  assume none: "re_search_sitemap p = None"
  have ym: "year_month ''2023'' ''7''"
    by (simp add: year_month_def is_digit_def)
  have "''sitemap-2023-7.xml'' = sitemap_name ''2023'' ''7'' @ []"
    by (simp add: sitemap_name_def)
  with re_search_sitemap_suffix [OF ym none, of "[]"]
  show "re_search_sitemap (p @ ''sitemap-2023-7.xml'') = Some (''2023'', ''7'')"
    by simp
next
  show "re_search_sitemap su = None
      \<longleftrightarrow> (\<nexists>pre y m rest. year_month y m \<and> su = pre @ sitemap_name y m @ rest)"
    by (rule re_search_sitemap_None)
next
  assume "re_search_sitemap su = None"
  then show "process_sitemap w st su = (None, st)"
    by (simp add: process_sitemap_def)
next
  assume "re_search_sitemap su = None"
  then show "sitemaps_loop w (su # others) st = sitemaps_loop w others st"
    by (simp add: process_sitemap_def)
qed

theorem sitemap_year_month_witness:
  "re_search_sitemap ''https://www.almayadeen.net/sitemaps/'' = None
   \<and> re_search_sitemap (''https://www.almayadeen.net/sitemaps/'' @ ''sitemap-2023-7.xml'')
       = Some (''2023'', ''7'')
   \<and> year_month ''2024'' ''12''
   \<and> re_search_sitemap
        (''https://www.almayadeen.net/sitemaps/'' @ sitemap_name ''2024'' ''12'' @ ''?page=2'')
       = Some (''2024'', ''12'')
   \<and> re_search_sitemap ''https://www.almayadeen.net/sitemaps/all.xml'' = None
   \<and> process_sitemap demo_world empty_state ''https://www.almayadeen.net/sitemaps/all.xml''
       = (None, empty_state)
   \<and> sitemaps_loop demo_world [''https://www.almayadeen.net/sitemaps/all.xml''] empty_state
       = (None, empty_state)"
proof -
  let ?p = "''https://www.almayadeen.net/sitemaps/''"
  let ?su = "''https://www.almayadeen.net/sitemaps/all.xml''"
  have p: "re_search_sitemap ?p = None"
    by code_simp
  have su: "re_search_sitemap ?su = None"
    by code_simp
  have ym: "year_month ''2024'' ''12''"
    by (simp add: year_month_def is_digit_def)
  note a = sitemap_year_month [of "''2024''" "''12''" ?p "''?page=2''" ?su demo_world
      empty_state "[]"]
  from a ym p
  have one: "re_search_sitemap (?p @ sitemap_name ''2024'' ''12'' @ ''?page=2'')
               = Some (''2024'', ''12'')"
    by (elim conjE) (erule mp, intro conjI)
  from a p have two: "re_search_sitemap (?p @ ''sitemap-2023-7.xml'') = Some (''2023'', ''7'')"
    by (elim conjE) (erule mp)
  from a su have three: "process_sitemap demo_world empty_state ?su = (None, empty_state)"
    by (elim conjE) (erule mp)
  from a su have "sitemaps_loop demo_world [?su] empty_state
                    = sitemaps_loop demo_world [] empty_state"
    by (elim conjE) (erule mp)
  then have four: "sitemaps_loop demo_world [?su] empty_state = (None, empty_state)"
    by simp
  from p two ym one su three four show ?thesis by (intro conjI)
qed

text \<open>
  The claim C9 as it is written fails on an address that ends in
  \<^verbatim>\<open>/sitemap-2023-7.xml\<close> and has a match of the pattern before: the search returns
  the leftmost match, here the year \<^verbatim>\<open>1999\<close> and the month \<^verbatim>\<open>1\<close>.
\<close>

theorem earlier_match_wins:
  "''http://h/sitemap-1999-1.xml/sitemap-2023-7.xml''
     = ''http://h/sitemap-1999-1.xml'' @ ''/sitemap-2023-7.xml''
   \<and> re_search_sitemap ''http://h/sitemap-1999-1.xml/sitemap-2023-7.xml'' = Some (''1999'', ''1'')
   \<and> (''1999'', ''1'') \<noteq> (''2023'', ''7'')"
proof -
  have "re_search_sitemap ''http://h/sitemap-1999-1.xml/sitemap-2023-7.xml''
          = Some (''1999'', ''1'')"
    by code_simp
  then show ?thesis by simp
qed

section \<open>The loop over the articles of a month\<close>

lemma scrape_article_attempt:
  "scrape_article w st u
     = (attempt w (length (requests st)) u, st\<lparr>requests := requests st @ [u]\<rparr>)"
  by (simp add: scrape_article_def attempt_def Let_def split: sum.splits)

lemma filter_upt_Suc:
  "filter P [0..<Suc n] = (if P 0 then [0] else []) @ map Suc (filter (\<lambda>k. P (Suc k)) [0..<n])"
proof -
  have "[0..<Suc n] = 0 # map Suc [0..<n]"
    by (simp add: upt_conv_Cons map_Suc_upt del: upt_Suc)
  then show ?thesis
    by (simp add: filter_map comp_def del: upt_Suc)
qed

lemma scrape_loop_run:
  "scrape_loop w us i acc st =
     (acc @ map (\<lambda>k. projr (attempt w (length (requests st) + k) (us ! k)))
              (filter (\<lambda>k. \<not> isl (attempt w (length (requests st) + k) (us ! k)))
                 [0..<min (length us) (11 - i)]),
      st\<lparr>requests := requests st @ take (11 - i) us,
         stdout := stdout st @
           map (\<lambda>k. Failed (us ! k) (projl (attempt w (length (requests st) + k) (us ! k))))
             (filter (\<lambda>k. isl (attempt w (length (requests st) + k) (us ! k)))
                [0..<min (length us) (11 - i)])\<rparr>)"
proof (induction us arbitrary: i acc st)
  case Nil
  show ?case by simp
next
  case (Cons u us)
  show ?case
  proof (cases "i > 10")
    case True
    then show ?thesis by simp
  next
    case False
    then have eleven: "11 - i = Suc (11 - (i + 1))"
      by simp
    have m: "min (length (u # us)) (11 - i) = Suc (min (length us) (11 - (i + 1)))"
      and t: "take (11 - i) (u # us) = u # take (11 - (i + 1)) us"
      unfolding eleven by simp_all
    let ?n = "length (requests st)"
    let ?st = "st\<lparr>requests := requests st @ [u]\<rparr>"
    have len: "length (requests ?st) = Suc ?n"
      by simp
    show ?thesis
    proof (cases "attempt w ?n u")
      case (Inl e)
      let ?st' = "?st\<lparr>stdout := stdout ?st @ [Failed u e]\<rparr>"
      have step: "scrape_loop w (u # us) i acc st = scrape_loop w us (i + 1) acc ?st'"
        using False Inl by (simp add: scrape_article_attempt)
      have len': "length (requests ?st') = Suc ?n"
        by simp
      show ?thesis
        unfolding step Cons.IH m t filter_upt_Suc len'
        using Inl by (simp add: comp_def)
    next
      case (Inr a)
      have step: "scrape_loop w (u # us) i acc st = scrape_loop w us (i + 1) (acc @ [a]) ?st"
        using False Inr by (simp add: scrape_article_attempt)
      show ?thesis
        unfolding step Cons.IH m t filter_upt_Suc len
        using Inr by (simp add: comp_def)
    qed
  qed
qed
lemma get_article_urls_result:
  "requests_get w (length (requests st)) su = Inr r \<Longrightarrow> BeautifulSoup w r = Inr sp \<Longrightarrow>
   get_article_urls w st su
     = (Inr (map tag_text (soup_find_all sp ''loc'')), st\<lparr>requests := requests st @ [su]\<rparr>)"
  by (simp add: get_article_urls_def)

lemma eleven_but_two: "filter (\<lambda>k. \<not> (k = 5 \<or> k = 9)) [0..<11] = [0, 1, 2, 3, 4, 6, 7, 8, 10::nat]"
  by code_simp

text \<open>
  C5. For a monthly sitemap that lists the addresses \<open>urls\<close>, the driver requests the
  first \<open>min (length urls) 11\<close> of them, in the order of the listing, and no other;
  an address whose extraction raises is logged and left out; and the file written holds
  the records of the attempts that succeeded, in the order of the listing. With 15
  addresses of which those at the indices 5 and 9 fail, these are the records of the
  indices 0, 1, 2, 3, 4, 6, 7, 8 and 10. Here \<open>res k\<close> is the result of the attempt on
  the address at index \<open>k\<close>, made after the request for the sitemap and \<open>k\<close> others.
\<close>

theorem first_eleven:
  assumes "re_search_sitemap su = Some (year, month)"
    and "requests_get w (length (requests st)) su = Inr r"
    and "BeautifulSoup w r = Inr sp"
  shows "let urls = map tag_text (soup_find_all sp ''loc'');
             res = (\<lambda>k. attempt w (length (requests st) + 1 + k) (urls ! k));
             tried = [0..<min (length urls) 11];
             ok = filter (\<lambda>k. \<not> isl (res k)) tried
         in (\<exists>st'. process_sitemap w st su = (None, st')
               \<and> requests st' = requests st @ su # take 11 urls
               \<and> stdout st' = stdout st @ Processing year month
                   # map (\<lambda>k. Failed (urls ! k) (projl (res k))) (filter (\<lambda>k. isl (res k)) tried)
                   @ [Saved year month]
               \<and> written st' = written st @
                   [(''articles_'' @ year @ ''_'' @ month @ ''.json'',
                     PList (map (\<lambda>k. PDict (asdict (projr (res k)))) ok))])
          \<and> (length urls = 15 \<and> (\<forall>k<11. isl (res k) \<longleftrightarrow> k = 5 \<or> k = 9)
               \<longrightarrow> ok = [0, 1, 2, 3, 4, 6, 7, 8, 10])"
proof -
  define urls where "urls = map tag_text (soup_find_all sp ''loc'')"
  define res where "res = (\<lambda>k. attempt w (length (requests st) + 1 + k) (urls ! k))"
  define tried where "tried = [0..<min (length urls) 11]"
  define ok where "ok = filter (\<lambda>k. \<not> isl (res k)) tried"
  let ?st1 = "st\<lparr>stdout := stdout st @ [Processing year month]\<rparr>"
  let ?st2 = "?st1\<lparr>requests := requests ?st1 @ [su]\<rparr>"
  have listed: "get_article_urls w ?st1 su = (Inr urls, ?st2)"
    using assms(2,3) by (simp add: get_article_urls_result urls_def)
  have loop: "scrape_loop w urls 0 [] ?st2 =
     (map (\<lambda>k. projr (res k)) ok,
      ?st2\<lparr>requests := requests ?st2 @ take 11 urls,
           stdout := stdout ?st2
             @ map (\<lambda>k. Failed (urls ! k) (projl (res k))) (filter (\<lambda>k. isl (res k)) tried)\<rparr>)"
    by (simp add: scrape_loop_run ok_def tried_def res_def)
  have run: "\<exists>st'. process_sitemap w st su = (None, st')
               \<and> requests st' = requests st @ su # take 11 urls
               \<and> stdout st' = stdout st @ Processing year month
                   # map (\<lambda>k. Failed (urls ! k) (projl (res k))) (filter (\<lambda>k. isl (res k)) tried)
                   @ [Saved year month]
               \<and> written st' = written st @
                   [(''articles_'' @ year @ ''_'' @ month @ ''.json'',
                     PList (map (\<lambda>k. PDict (asdict (projr (res k)))) ok))]"
    using assms(1) listed loop
    by (simp add: process_sitemap_def save_to_json_def comp_def)
  have scenario: "ok = [0, 1, 2, 3, 4, 6, 7, 8, 10]"
    if "length urls = 15" and fails: "\<forall>k<11. isl (res k) \<longleftrightarrow> k = 5 \<or> k = 9"
  proof -
    from that(1) have "tried = [0..<11]"
      by (simp add: tried_def)
    moreover have "filter (\<lambda>k. \<not> isl (res k)) [0..<11]
                     = filter (\<lambda>k. \<not> (k = 5 \<or> k = 9)) [0..<11]"
      using fails by (intro filter_cong) auto
    ultimately show ?thesis
      by (simp only: ok_def eleven_but_two)
  qed
  from run scenario
  have "(\<exists>st'. process_sitemap w st su = (None, st')
               \<and> requests st' = requests st @ su # take 11 urls
               \<and> stdout st' = stdout st @ Processing year month
                   # map (\<lambda>k. Failed (urls ! k) (projl (res k))) (filter (\<lambda>k. isl (res k)) tried)
                   @ [Saved year month]
               \<and> written st' = written st @
                   [(''articles_'' @ year @ ''_'' @ month @ ''.json'',
                     PList (map (\<lambda>k. PDict (asdict (projr (res k)))) ok))])
          \<and> (length urls = 15 \<and> (\<forall>k<11. isl (res k) \<longleftrightarrow> k = 5 \<or> k = 9)
               \<longrightarrow> ok = [0, 1, 2, 3, 4, 6, 7, 8, 10])"
    by blast
  then show ?thesis
    unfolding Let_def ok_def tried_def res_def urls_def .
qed
theorem first_eleven_witness:
  "re_search_sitemap month_url = Some (''2023'', ''7'')
   \<and> requests_get month_world (length (requests empty_state)) month_url = Inr month_body
   \<and> BeautifulSoup month_world month_body = Inr month_soup
   \<and> map tag_text (soup_find_all month_soup ''loc'') = map letter_url letters
   \<and> length (map letter_url letters) = 15
   \<and> list_all (\<lambda>k. isl (attempt month_world (1 + k) (map letter_url letters ! k))
                    = (k = 5 \<or> k = 9)) [0..<11]
   \<and> (\<exists>st'. process_sitemap month_world empty_state month_url = (None, st')
         \<and> requests st' = month_url # map letter_url ''abcdefghijk''
         \<and> stdout st' = [Processing ''2023'' ''7'',
                          Failed (letter_url (CHR ''f'')) FetchError,
                          Failed (letter_url (CHR ''j'')) FetchError,
                          Saved ''2023'' ''7'']
         \<and> written st' = [(''articles_2023_7.json'',
                            PList (map (\<lambda>c. PDict (asdict (postid_article c))) ''abcdeghik''))])"
proof -
  let ?urls = "map tag_text (soup_find_all month_soup ''loc'')"
  let ?res = "\<lambda>k. attempt month_world (length (requests empty_state) + 1 + k) (?urls ! k)"
  have m: "re_search_sitemap month_url = Some (''2023'', ''7'')"
    by code_simp
  have g: "requests_get month_world (length (requests empty_state)) month_url = Inr month_body"
    by code_simp
  have p: "BeautifulSoup month_world month_body = Inr month_soup"
    by code_simp
  have urls: "?urls = map letter_url letters"
    by code_simp
  have len: "length ?urls = 15"
    by code_simp
  have all: "list_all (\<lambda>k. isl (?res k) = (k = 5 \<or> k = 9)) [0..<11]"
    by code_simp
  then have fails: "\<forall>k<11. isl (?res k) \<longleftrightarrow> k = 5 \<or> k = 9"
    by (simp add: list_all_iff)
  have tried: "[0..<min (length ?urls) 11] = [0..<11]"
    unfolding len by simp
  have failed: "filter (\<lambda>k. isl (?res k)) [0..<11] = [5, 9]"
    by code_simp
  have logged: "map (\<lambda>k. Failed (?urls ! k) (projl (?res k))) [5, 9]
                  = [Failed (letter_url (CHR ''f'')) FetchError,
                     Failed (letter_url (CHR ''j'')) FetchError]"
    by code_simp
  have saved: "map (\<lambda>k. PDict (asdict (projr (?res k)))) [0, 1, 2, 3, 4, 6, 7, 8, 10]
                 = map (\<lambda>c. PDict (asdict (postid_article c))) ''abcdeghik''"
    by code_simp
  have first: "take 11 ?urls = map letter_url ''abcdefghijk''"
    by code_simp
  have name: "''articles_'' @ ''2023'' @ ''_'' @ ''7'' @ ''.json'' = ''articles_2023_7.json''"
    by simp
  note run = first_eleven [OF m g p, unfolded Let_def]
  from run len fails
  have ok: "filter (\<lambda>k. \<not> isl (?res k)) [0..<min (length ?urls) 11] = [0, 1, 2, 3, 4, 6, 7, 8, 10]"
    by (elim conjE) (erule mp, intro conjI)
  note ok' = ok [unfolded tried]
  from run obtain st' where r0: "process_sitemap month_world empty_state month_url = (None, st')"
    and r1: "requests st' = requests empty_state @ month_url # take 11 ?urls"
    and r2: "stdout st' = stdout empty_state @ Processing ''2023'' ''7''
           # map (\<lambda>k. Failed (?urls ! k) (projl (?res k)))
               (filter (\<lambda>k. isl (?res k)) [0..<min (length ?urls) 11])
           @ [Saved ''2023'' ''7'']"
    and r3: "written st' = written empty_state @
           [(''articles_'' @ ''2023'' @ ''_'' @ ''7'' @ ''.json'',
             PList (map (\<lambda>k. PDict (asdict (projr (?res k))))
                      (filter (\<lambda>k. \<not> isl (?res k)) [0..<min (length ?urls) 11])))]"
    by (elim conjE exE)
  have e: "requests empty_state = []" "stdout empty_state = []" "written empty_state = []"
    by (simp_all add: empty_state_def)
  have q1: "requests st' = month_url # map letter_url ''abcdefghijk''"
    using r1 unfolding first by (simp add: e)
  have q2: "stdout st' = [Processing ''2023'' ''7'',
                          Failed (letter_url (CHR ''f'')) FetchError,
                          Failed (letter_url (CHR ''j'')) FetchError,
                          Saved ''2023'' ''7'']"
    using r2 unfolding tried failed logged by (simp add: e)
  have q3: "written st' = [(''articles_2023_7.json'',
                            PList (map (\<lambda>c. PDict (asdict (postid_article c))) ''abcdeghik''))]"
    using r3 unfolding tried ok' saved name by (simp add: e)
  from r0 q1 q2 q3
  have "\<exists>st'. process_sitemap month_world empty_state month_url = (None, st')
         \<and> requests st' = month_url # map letter_url ''abcdefghijk''
         \<and> stdout st' = [Processing ''2023'' ''7'',
                          Failed (letter_url (CHR ''f'')) FetchError,
                          Failed (letter_url (CHR ''j'')) FetchError,
                          Saved ''2023'' ''7'']
         \<and> written st' = [(''articles_2023_7.json'',
                            PList (map (\<lambda>c. PDict (asdict (postid_article c))) ''abcdeghik''))]"
    by (intro exI [of _ st'] conjI)
  moreover have "length (map letter_url letters) = 15"
    by code_simp
  moreover have "list_all (\<lambda>k. isl (attempt month_world (1 + k) (map letter_url letters ! k))
                    = (k = 5 \<or> k = 9)) [0..<11]"
    by code_simp
  ultimately show ?thesis
    using m g p urls by (intro conjI)
qed

end
